theory Spec2Isabelle
  imports Complex_Main "HOL-Library.Word"
begin

section \<open>JavaScript values and built-ins used by the parsers\<close>

text \<open>
  The parsers of Packit (\<^verbatim>\<open>stl_ascii\<close>, \<^verbatim>\<open>stl_binary\<close>, \<^verbatim>\<open>packit.parseOBJ\<close>) are
  embedded as HOL functions. A blob is its list of bytes, a text its list of code units;
  both are lists of \<^typ>\<open>char\<close> (8 bits). \<^verbatim>\<open>readAsText\<close> is the identity on ASCII
  bytes; a byte above 127 is kept as one opaque character that is neither white space
  nor a digit (UTF-8 decoding never creates or removes the bytes 10 and 32, on which the
  parsers split). Texts with non-ASCII white space, or with a byte-order mark in front,
  are outside the model.

  Everything a \<^verbatim>\<open>try\<close> block can throw is a value of type \<open>exn\<close>, and a block
  that may throw returns \<open>exn + 'a\<close>.
\<close>

datatype exn = IllegalParse | TypeError | RangeError

type_synonym blob = "char list"

text \<open>
  Numbers that index arithmetic computes are exact rationals; \<open>NaN\<close> is kept apart, and
  \<open>undefined\<close> is \<open>None\<close>. The code computes with doubles, which agree with the
  rationals as long as the integers are below \<open>2^53\<close> in size and the divisions by 3
  come out even. Where a double would round (an index token of more than fifteen digits,
  a number of coordinates that is not a multiple of 3) the model keeps the exact value.
\<close>

datatype number = NaN | Num rat

text \<open>
  A floating-point value that the model does not compute is named by where it comes
  from: a number rounded by a typed array, the result of \<^verbatim>\<open>parseFloat\<close> on a token,
  the conversion of a string stored into a typed array, or the four bytes of a float.
\<close>

datatype jsfloat =
    OfNumber number
  | ParsedFloat string
  | StringToNumber string
  | Float32Bits "32 word"

text \<open>\<^verbatim>\<open>xs[i]\<close> for a possibly negative or too large index: \<open>None\<close> is undefined.\<close>

definition js_index :: "'a list \<Rightarrow> int \<Rightarrow> 'a option" where
  "js_index xs i = (if 0 \<le> i \<and> i < int (length xs) then Some (xs ! nat i) else None)"

text \<open>\<^verbatim>\<open>str.split(c)\<close> for a one-character separator: never the empty list.\<close>

fun js_split :: "char \<Rightarrow> string \<Rightarrow> string list" where
  "js_split c [] = [[]]"
| "js_split c (x # xs) =
     (if x = c then [] # js_split c xs
      else (case js_split c xs of [] \<Rightarrow> [[x]] | t # ts \<Rightarrow> (x # t) # ts))"

text \<open>\<^verbatim>\<open>str.includes(sub)\<close>.\<close>

fun js_includes :: "string \<Rightarrow> string \<Rightarrow> bool" where
  "js_includes [] sub = (sub = [])"
| "js_includes (x # xs) sub = (take (length sub) (x # xs) = sub \<or> js_includes xs sub)"

text \<open>\<^verbatim>\<open>buffer.slice(begin, end)\<close>, for \<open>0 \<le> begin \<le> end\<close>: clipped to the buffer.\<close>

definition slice :: "'a list \<Rightarrow> nat \<Rightarrow> nat \<Rightarrow> 'a list" where
  "slice buf b e = take (e - b) (drop b buf)"

text \<open>Four bytes as one 32-bit value, least significant byte first.\<close>

fun words_le :: "blob \<Rightarrow> 32 word list" where
  "words_le (a # b # c # d # rest) =
     word_of_nat (of_char a + 256 * of_char b + 65536 * of_char c + 16777216 * of_char d)
       # words_le rest"
| "words_le _ = []"

text \<open>
  \<^verbatim>\<open>new Uint32Array(buffer)\<close> and \<^verbatim>\<open>new Float32Array(buffer)\<close>: a RangeError unless
  the byte length is a multiple of 4.
\<close>

definition Uint32Array_buffer :: "blob \<Rightarrow> exn + 32 word list" where
  "Uint32Array_buffer buf =
     (if length buf mod 4 \<noteq> 0 then Inl RangeError else Inr (words_le buf))"

definition Float32Array_buffer :: "blob \<Rightarrow> exn + jsfloat list" where
  "Float32Array_buffer buf =
     (if length buf mod 4 \<noteq> 0 then Inl RangeError else Inr (map Float32Bits (words_le buf)))"

text \<open>
  The length of a typed array is bounded by the engine that runs the library, not by the
  library; the bound is set to \<open>2^32 - 1\<close> elements here. A count that the binary
  parser reads from the bytes of a text is far above a ninth of it. That the host may
  have no memory left for a shorter array is not modelled.
\<close>

definition MAX_TYPED_ARRAY_LENGTH :: nat where
  "MAX_TYPED_ARRAY_LENGTH = 4294967295"

text \<open>
  \<^verbatim>\<open>new Float32Array(n)\<close> for a number \<open>n\<close>: zeros; a RangeError if \<open>n < 0\<close> or if
  \<open>n\<close> is above the bound.
\<close>

definition Float32Array_length :: "rat \<Rightarrow> exn + jsfloat list" where
  "Float32Array_length n =
     (if n < 0 \<or> rat_of_nat MAX_TYPED_ARRAY_LENGTH < n then Inl RangeError
      else Inr (replicate (nat \<lfloor>n\<rfloor>) (OfNumber (Num 0))))"

text \<open>Storing a value into a cell of a Float32Array; \<^verbatim>\<open>ToNumber(undefined)\<close> is NaN.\<close>

definition store_string :: "string option \<Rightarrow> jsfloat" where
  "store_string v = (case v of None \<Rightarrow> OfNumber NaN | Some s \<Rightarrow> StringToNumber s)"

definition store_float :: "jsfloat option \<Rightarrow> jsfloat" where
  "store_float v = (case v of None \<Rightarrow> OfNumber NaN | Some x \<Rightarrow> x)"

text \<open>\<^verbatim>\<open>new Float32Array(array)\<close> and \<^verbatim>\<open>new Uint32Array(array)\<close> of an array of numbers.\<close>

definition js_trunc :: "rat \<Rightarrow> int" where
  "js_trunc r = (if 0 \<le> r then \<lfloor>r\<rfloor> else \<lceil>r\<rceil>)"

definition toUint32 :: "number option \<Rightarrow> 32 word" where
  "toUint32 v = (case v of Some (Num r) \<Rightarrow> word_of_int (js_trunc r) | _ \<Rightarrow> 0)"

definition toFloat32 :: "number option \<Rightarrow> jsfloat" where
  "toFloat32 v = (case v of None \<Rightarrow> OfNumber NaN | Some n \<Rightarrow> OfNumber n)"

subsection \<open>parseInt and parseFloat\<close>

definition isWhite :: "char \<Rightarrow> bool" where
  "isWhite c = ((of_char c :: nat) \<in> {9, 10, 11, 12, 13, 32})"

definition digit_val :: "char \<Rightarrow> nat" where
  "digit_val c =
     (let n = (of_char c :: nat) in
      if 48 \<le> n \<and> n \<le> 57 then n - 48
      else if 97 \<le> n \<and> n \<le> 122 then n - 87
      else if 65 \<le> n \<and> n \<le> 90 then n - 55
      else 36)"

definition radix_digit :: "nat \<Rightarrow> char \<Rightarrow> bool" where
  "radix_digit R c = (digit_val c < R)"

text \<open>
  \<^verbatim>\<open>parseInt(str)\<close> without a radix: leading white space, a sign, a \<open>0x\<close> prefix,
  then the longest run of digits; \<open>None\<close> is NaN.
\<close>

definition parseInt :: "string \<Rightarrow> int option" where
  "parseInt str =
     (let S = dropWhile isWhite str;
          neg = (take 1 S = ''-'');
          S1 = (if take 1 S = ''-'' \<or> take 1 S = ''+'' then drop 1 S else S);
          hex = (take 2 S1 = ''0x'' \<or> take 2 S1 = ''0X'');
          R = (if hex then 16 else 10);
          S2 = (if hex then drop 2 S1 else S1);
          Z = takeWhile (radix_digit R) S2
      in if Z = [] then None
         else Some ((if neg then - 1 else 1) * int (foldl (\<lambda>a c. a * R + digit_val c) 0 Z)))"

text \<open>\<^verbatim>\<open>parseInt(x)\<close> of a possibly undefined \<open>x\<close>: undefined reads as the text "undefined".\<close>

definition parseInt_opt :: "string option \<Rightarrow> int option" where
  "parseInt_opt x = (case x of None \<Rightarrow> parseInt ''undefined'' | Some s \<Rightarrow> parseInt s)"

text \<open>
  \<^verbatim>\<open>parseFloat(str)\<close> is a number exactly when, after white space and a sign, the text
  starts with a digit, with a dot and a digit, or with \<open>Infinity\<close>.
\<close>

definition isNumeric :: "string \<Rightarrow> bool" where
  "isNumeric str =
     (let S = dropWhile isWhite str;
          S1 = (if take 1 S = ''-'' \<or> take 1 S = ''+'' then drop 1 S else S)
      in take 8 S1 = ''Infinity'' \<or>
         (case S1 of
            [] \<Rightarrow> False
          | c # r \<Rightarrow> radix_digit 10 c \<or>
              (c = CHR ''.'' \<and> (case r of [] \<Rightarrow> False | d # _ \<Rightarrow> radix_digit 10 d))))"

definition parseFloat :: "string \<Rightarrow> jsfloat" where
  "parseFloat str = (if isNumeric str then ParsedFloat str else OfNumber NaN)"

definition isNaN :: "jsfloat \<Rightarrow> bool" where
  "isNaN x = (x = OfNumber NaN)"

subsection \<open>Loops\<close>

text \<open>
  \<^verbatim>\<open>for (let i = a; i < b; i++) body(i)\<close>, where the body may throw: the indices are
  visited in increasing order and the first exception ends the loop.
\<close>

primrec each :: "(nat \<Rightarrow> 's \<Rightarrow> exn + 's) \<Rightarrow> nat list \<Rightarrow> 's \<Rightarrow> exn + 's" where
  "each body [] s = Inr s"
| "each body (i # is) s = (case body i s of Inl e \<Rightarrow> Inl e | Inr s' \<Rightarrow> each body is s')"

definition for_loop :: "nat \<Rightarrow> nat \<Rightarrow> (nat \<Rightarrow> 's \<Rightarrow> exn + 's) \<Rightarrow> 's \<Rightarrow> exn + 's" where
  "for_loop a b body s = each body [a..<b] s"

section \<open>The viewer\<close>

text \<open>
  Of the class \<^verbatim>\<open>Viewer\<close> the parsers use the two flags and \<^verbatim>\<open>display\<close>. What
  \<^verbatim>\<open>display\<close> receives is all that a parser hands over; the calls are logged in order.
  An argument that is \<^verbatim>\<open>null\<close> or left out is \<open>None\<close>. What \<^verbatim>\<open>display\<close> does
  with the mesh (the scene of the graphics library) is not part of the model, and it is
  taken to return.
\<close>

record display_args =
  arg_vertices :: "jsfloat list"
  arg_name :: "string option"
  arg_faceIndices :: "32 word list option"
  arg_colors :: "jsfloat list option"
  arg_uvs :: "jsfloat list option"

record Viewer =
  attemptedASCII_STL :: bool
  attemptedBINARY_STL :: bool
  displayed :: "display_args list"

definition display ::
  "Viewer \<Rightarrow> jsfloat list \<Rightarrow> string option \<Rightarrow> 32 word list option \<Rightarrow> jsfloat list option
     \<Rightarrow> jsfloat list option \<Rightarrow> Viewer" where
  "display viewer vertices name faceIndices colors uvs =
     viewer\<lparr>displayed := displayed viewer @
       [\<lparr>arg_vertices = vertices, arg_name = name, arg_faceIndices = faceIndices,
         arg_colors = colors, arg_uvs = uvs\<rparr>]\<rparr>"

section \<open>The STL parsers\<close>

definition PER_BATCH :: nat where
  "PER_BATCH = 500"

text \<open>
  \<^verbatim>\<open>runBatch\<close> is written twice in the source, word for word, once inside each
  STL parser; the two copies differ only in the \<^verbatim>\<open>getTriangle\<close> they call, which is a
  parameter here. The variables of the enclosing function that it reads
  (\<open>batchLimit\<close>, \<open>remainder\<close>) and updates (\<open>batchCount\<close>, \<open>triangleData\<close>) are
  passed along. \<^verbatim>\<open>setTimeout(runBatch(), TIMEOUT_CONSTANT)\<close> calls \<^verbatim>\<open>runBatch\<close> at
  once, inside the same \<^verbatim>\<open>try\<close>, and hands its result (undefined) to the timer,
  which then has nothing to run.
\<close>

function runBatch ::
  "(nat \<Rightarrow> jsfloat list \<Rightarrow> exn + jsfloat list) \<Rightarrow> nat \<Rightarrow> nat \<Rightarrow> nat \<Rightarrow> jsfloat list
     \<Rightarrow> Viewer \<Rightarrow> exn + Viewer" where
  "runBatch getTriangle batchLimit remainder batchCount triangleData viewer =
     (case for_loop 0 PER_BATCH (\<lambda>i. getTriangle (PER_BATCH * batchCount + i)) triangleData of
        Inl e \<Rightarrow> Inl e
      | Inr td \<Rightarrow>
          if batchCount + 1 < batchLimit
          then runBatch getTriangle batchLimit remainder (batchCount + 1) td viewer
          else (case for_loop 0 remainder
                       (\<lambda>i. getTriangle (PER_BATCH * (batchCount + 1) + i)) td of
                  Inl e \<Rightarrow> Inl e
                | Inr td' \<Rightarrow> Inr (display viewer td' None None None None)))"
  by pat_completeness auto
termination
  by (relation "measure (\<lambda>(getTriangle, batchLimit, remainder, batchCount, triangleData, viewer).
        batchLimit - batchCount)") auto

declare runBatch.simps [simp del]

subsection \<open>ASCII\<close>

text \<open>
  \<^verbatim>\<open>getTriangle\<close> of \<^verbatim>\<open>stl_ascii\<close>. \<^verbatim>\<open>splice[k].split(" ")\<close> throws a TypeError when
  the line \<open>k\<close> does not exist. A store beyond the end of the typed array is ignored,
  as is \<open>xs[i := v]\<close> beyond the end of a list.
\<close>

definition stl_ascii_getTriangle ::
  "string list \<Rightarrow> nat \<Rightarrow> jsfloat list \<Rightarrow> exn + jsfloat list" where
  "stl_ascii_getTriangle splice' index triangleData =
     (case js_index splice' (int (3 + 7 * index)) of None \<Rightarrow> Inl TypeError | Some l1 \<Rightarrow>
      case js_index splice' (int (4 + 7 * index)) of None \<Rightarrow> Inl TypeError | Some l2 \<Rightarrow>
      case js_index splice' (int (5 + 7 * index)) of None \<Rightarrow> Inl TypeError | Some l3 \<Rightarrow>
        (let v1 = js_split CHR '' '' l1;
             v2 = js_split CHR '' '' l2;
             v3 = js_split CHR '' '' l3
         in Inr (triangleData
              [9 * index := store_string (js_index v1 (int (length v1) - 3)),
               9 * index + 1 := store_string (js_index v1 (int (length v1) - 2)),
               9 * index + 2 := store_string (js_index v1 (int (length v1) - 1)),
               9 * index + 3 := store_string (js_index v2 (int (length v2) - 3)),
               9 * index + 4 := store_string (js_index v2 (int (length v2) - 2)),
               9 * index + 5 := store_string (js_index v2 (int (length v3) - 1)),
               9 * index + 6 := store_string (js_index v3 (int (length v2) - 3)),
               9 * index + 7 := store_string (js_index v3 (int (length v3) - 2)),
               9 * index + 8 := store_string (js_index v3 (int (length v3) - 1))])))"

text \<open>
  The body of the \<^verbatim>\<open>try\<close> block of \<^verbatim>\<open>stl_ascii\<close>, on the text of the blob.
  \<^verbatim>\<open>parseInt(triCount, 10)\<close> of a number cuts its fraction off.
\<close>

definition stl_ascii_try :: "string \<Rightarrow> Viewer \<Rightarrow> exn + Viewer" where
  "stl_ascii_try text viewer =
     (let splice' = js_split CHR 0x0A text;
          triCount = (rat_of_nat (length splice') - 3) / 7
      in if triCount \<noteq> rat_of_int (js_trunc triCount) then Inl IllegalParse
         else
           (let batchLimit = nat \<lfloor>triCount / rat_of_nat PER_BATCH\<rfloor>;
                remainder = nat \<lfloor>triCount - rat_of_nat batchLimit * rat_of_nat PER_BATCH\<rfloor>
            in case Float32Array_length (triCount * 9) of
                 Inl e \<Rightarrow> Inl e
               | Inr triangleData \<Rightarrow>
                   runBatch (stl_ascii_getTriangle splice') batchLimit remainder 0
                     triangleData viewer))"

subsection \<open>Binary\<close>

definition stl_binary_getTriangle ::
  "blob \<Rightarrow> nat \<Rightarrow> jsfloat list \<Rightarrow> exn + jsfloat list" where
  "stl_binary_getTriangle arr index triangleData =
     (case Float32Array_buffer (slice arr (96 + 50 * index) (132 + 50 * index)) of
        Inl e \<Rightarrow> Inl e
      | Inr triangle \<Rightarrow>
          Inr (triangleData
            [9 * index := store_float (js_index triangle 0),
             9 * index + 1 := store_float (js_index triangle 1),
             9 * index + 2 := store_float (js_index triangle 2),
             9 * index + 3 := store_float (js_index triangle 3),
             9 * index + 4 := store_float (js_index triangle 4),
             9 * index + 5 := store_float (js_index triangle 5),
             9 * index + 6 := store_float (js_index triangle 6),
             9 * index + 7 := store_float (js_index triangle 7),
             9 * index + 8 := store_float (js_index triangle 8)]))"

text \<open>
  The body of the \<^verbatim>\<open>try\<close> block of \<^verbatim>\<open>stl_binary\<close>, on the bytes of the blob. With
  fewer than four bytes at 80 the count is undefined, which differs from
  \<^verbatim>\<open>parseInt(undefined, 10)\<close> (NaN), or the Uint32Array cannot be made.
\<close>

definition stl_binary_try :: "blob \<Rightarrow> Viewer \<Rightarrow> exn + Viewer" where
  "stl_binary_try arr viewer =
     (case Uint32Array_buffer (slice arr 80 84) of
        Inl e \<Rightarrow> Inl e
      | Inr count \<Rightarrow>
         (case js_index count 0 of
            None \<Rightarrow> Inl IllegalParse
          | Some w \<Rightarrow>
             (let triCount = rat_of_nat (unat w)
              in if triCount \<noteq> rat_of_int (js_trunc triCount) then Inl IllegalParse
                 else
                   (let batchLimit = nat \<lfloor>triCount / rat_of_nat PER_BATCH\<rfloor>;
                        remainder =
                          nat \<lfloor>triCount - rat_of_nat batchLimit * rat_of_nat PER_BATCH\<rfloor>
                    in case Float32Array_length (triCount * 9) of
                         Inl e \<Rightarrow> Inl e
                       | Inr triangleData \<Rightarrow>
                           runBatch (stl_binary_getTriangle arr) batchLimit remainder 0
                             triangleData viewer))))"

subsection \<open>The two parsers and their fallback\<close>

definition readAsText :: "blob \<Rightarrow> string" where
  "readAsText data = data"

text \<open>
  Each parser returns at once when its flag is set; otherwise it runs its \<^verbatim>\<open>try\<close>
  block, and its \<^verbatim>\<open>catch\<close> sets the flag and calls the other parser. The exception
  itself is dropped. The result is what reaches the caller: \<open>Inr\<close> the viewer when the
  call returns, \<open>Inl\<close> an exception that was not caught. The file readers call back
  later; with one parse under way the order of events is that of the calls below.
\<close>

function stl_ascii :: "blob \<Rightarrow> Viewer \<Rightarrow> exn + Viewer"
  and stl_binary :: "blob \<Rightarrow> Viewer \<Rightarrow> exn + Viewer" where
  "stl_ascii data viewer =
     (if attemptedASCII_STL viewer then Inr viewer
      else (case stl_ascii_try (readAsText data) viewer of
              Inr viewer' \<Rightarrow> Inr viewer'
            | Inl err \<Rightarrow> stl_binary data (viewer\<lparr>attemptedASCII_STL := True\<rparr>)))"
| "stl_binary data viewer =
     (if attemptedBINARY_STL viewer then Inr viewer
      else (case stl_binary_try data viewer of
              Inr viewer' \<Rightarrow> Inr viewer'
            | Inl err \<Rightarrow> stl_ascii data (viewer\<lparr>attemptedBINARY_STL := True\<rparr>)))"
  by pat_completeness auto
termination
  by (relation "measure (\<lambda>x. case x of
          Inl (data, viewer) \<Rightarrow>
            (if attemptedASCII_STL viewer then 0 else 1) +
            (if attemptedBINARY_STL viewer then 0 else 1)
        | Inr (data, viewer) \<Rightarrow>
            (if attemptedASCII_STL viewer then 0 else 1) +
            (if attemptedBINARY_STL viewer then 0 else 1))") auto

declare stl_ascii.simps [simp del] stl_binary.simps [simp del]

text \<open>\<^verbatim>\<open>packit.parseSTL\<close>: the first six bytes, read as text, choose the parser.\<close>

definition parseSTL :: "blob \<Rightarrow> Viewer \<Rightarrow> exn + Viewer" where
  "parseSTL data viewer =
     (let indicator = readAsText (slice data 0 6)
      in if js_includes indicator ''solid'' then stl_ascii data viewer
         else stl_binary data viewer)"

section \<open>The OBJ parser\<close>

text \<open>
  The arrays that \<^verbatim>\<open>packit.parseOBJ\<close> fills (\<open>materials\<close> is never used).
  \<open>vertices\<close> and \<open>uvs\<close> hold what \<^verbatim>\<open>parseFloat\<close> returned; \<open>faces\<close> and
  \<open>uvfaces\<close> hold numbers, or undefined where an element was read outside the array.
\<close>

record obj_arrays =
  vertices :: "jsfloat list"
  faces :: "number option list"
  uvs :: "jsfloat list"
  uvfaces :: "number option list"

definition parseFloat_opt :: "string option \<Rightarrow> jsfloat" where
  "parseFloat_opt x = (case x of None \<Rightarrow> parseFloat ''undefined'' | Some s \<Rightarrow> parseFloat s)"

text \<open>\<^verbatim>\<open>xs[i]\<close> of an array whose elements may be undefined.\<close>

definition js_get :: "'a option list \<Rightarrow> int \<Rightarrow> 'a option" where
  "js_get xs i = (case js_index xs i of None \<Rightarrow> None | Some v \<Rightarrow> v)"

definition parseVertex :: "string \<Rightarrow> obj_arrays \<Rightarrow> exn + obj_arrays" where
  "parseVertex line st =
     (let arr = js_split CHR '' '' line
      in for_loop 0 (length arr)
           (\<lambda>i st. let el = parseFloat_opt (js_index arr (int i))
                    in Inr (if \<not> isNaN el then st\<lparr>vertices := vertices st @ [el]\<rparr> else st))
           st)"

definition parseUV :: "string \<Rightarrow> obj_arrays \<Rightarrow> exn + obj_arrays" where
  "parseUV line st =
     (let arr = js_split CHR '' '' line
      in for_loop 0 (length arr)
           (\<lambda>i st. let el = parseFloat_opt (js_index arr (int i))
                    in Inr (if \<not> isNaN el then st\<lparr>uvs := uvs st @ [el]\<rparr> else st))
           st)"

text \<open>
  What \<^verbatim>\<open>parseFace\<close> does to \<open>faces\<close> with a resolved index, and in the same words
  to \<open>uvfaces\<close>: \<^verbatim>\<open>xs.push(x); if (i > 3) { xs.push(xs[xs.length-4]);
  xs.push(xs[xs.length-3]); }\<close>.
\<close>

definition push_corner :: "nat \<Rightarrow> number option \<Rightarrow> number option list \<Rightarrow> number option list" where
  "push_corner i x xs =
     (let xs1 = xs @ [x]
      in if i > 3
         then (let xs2 = xs1 @ [js_get xs1 (int (length xs1) - 4)]
               in xs2 @ [js_get xs2 (int (length xs2) - 3)])
         else xs1)"

text \<open>
  The body of the loop of \<^verbatim>\<open>parseFace\<close> at index \<open>i\<close>. \<^verbatim>\<open>arr[i].split("/")\<close>
  throws a TypeError if \<open>arr[i]\<close> is undefined. \<open>face\<close> is a number here, \<open>texture\<close>
  may be NaN, and then stays NaN.
\<close>

definition parseFace_body :: "string list \<Rightarrow> nat \<Rightarrow> obj_arrays \<Rightarrow> exn + obj_arrays" where
  "parseFace_body arr i st =
     (case js_index arr (int i) of
        None \<Rightarrow> Inl TypeError
      | Some tok \<Rightarrow>
         (let spl = js_split CHR ''/'' tok
          in case parseInt_opt (js_index spl 0) of
               None \<Rightarrow> Inr st
             | Some face0 \<Rightarrow>
                (let texture0 = parseInt_opt (js_index spl 1);
                     face = (if face0 < 0
                             then rat_of_int face0 + (rat_of_nat (length (vertices st)) / 3 + 1)
                             else rat_of_int face0);
                     texture =
                       (case texture0 of
                          None \<Rightarrow> NaN
                        | Some t \<Rightarrow>
                            if t < 0
                            then Num (rat_of_int t + (rat_of_nat (length (uvs st)) / 3 + 1))
                            else Num (rat_of_int t))
                 in Inr (st\<lparr>faces := push_corner i (Some (Num (face - 1))) (faces st),
                           uvfaces := push_corner i
                             (Some (case texture of NaN \<Rightarrow> NaN | Num t \<Rightarrow> Num (t - 1)))
                             (uvfaces st)\<rparr>))))"

definition parseFace :: "string \<Rightarrow> obj_arrays \<Rightarrow> exn + obj_arrays" where
  "parseFace line st =
     (let arr = js_split CHR '' '' line
      in for_loop 1 (length arr - 1) (parseFace_body arr) st)"

text \<open>The body of the loop over the lines; \<^verbatim>\<open>splice[i].substring(0,2)\<close>.\<close>

definition parseOBJ_line :: "string list \<Rightarrow> nat \<Rightarrow> obj_arrays \<Rightarrow> exn + obj_arrays" where
  "parseOBJ_line splice' i st =
     (case js_index splice' (int i) of
        None \<Rightarrow> Inl TypeError
      | Some line \<Rightarrow>
         (let identifier = take 2 line
          in if identifier = ''v '' then parseVertex line st
             else if identifier = ''vt'' then parseUV line st
             else if identifier = ''f '' then parseFace line st
             else Inr st))"

text \<open>
  \<^verbatim>\<open>packit.parseOBJ\<close>: no \<^verbatim>\<open>try\<close> here, an exception would reach the host. The
  rounding of \<^verbatim>\<open>new Float32Array(vertices)\<close> is not modelled.
\<close>

definition parseOBJ :: "blob \<Rightarrow> Viewer \<Rightarrow> exn + Viewer" where
  "parseOBJ data viewer =
     (let str = readAsText data;
          splice' = js_split CHR 0x0A str
      in case for_loop 0 (length splice') (parseOBJ_line splice')
                \<lparr>vertices = [], faces = [], uvs = [], uvfaces = []\<rparr> of
           Inl e \<Rightarrow> Inl e
         | Inr st \<Rightarrow>
             Inr (display viewer (vertices st) None (Some (map toUint32 (faces st))) None
                    (Some (map toFloat32 (uvfaces st)))))"

section \<open>Notions used in the statements\<close>

text \<open>The 32-bit value that four bytes of a buffer hold from offset \<open>off\<close>, least
  significant byte first.\<close>

definition le32 :: "blob \<Rightarrow> nat \<Rightarrow> 32 word" where
  "le32 arr off =
     word_of_nat (of_char (arr ! off) + 256 * of_char (arr ! (off + 1)) +
       65536 * of_char (arr ! (off + 2)) + 16777216 * of_char (arr ! (off + 3)))"

text \<open>
  For the triangle \<open>i\<close> the binary parser reads the bytes from \<open>96 + 50 * i\<close> up to
  \<open>132 + 50 * i\<close>, as far as the buffer holds them. \<open>window_cut\<close>: their number is
  not a multiple of 4. \<open>binary_cell\<close>: the float \<open>k\<close> among them, NaN where the
  buffer ends before it.
\<close>

definition window_cut :: "blob \<Rightarrow> nat \<Rightarrow> bool" where
  "window_cut arr i = (length (slice arr (96 + 50 * i) (132 + 50 * i)) mod 4 \<noteq> 0)"

definition binary_cell :: "blob \<Rightarrow> nat \<Rightarrow> nat \<Rightarrow> jsfloat" where
  "binary_cell arr i k =
     (if 96 + 50 * i + 4 * k + 4 \<le> length arr
      then Float32Bits (le32 arr (96 + 50 * i + 4 * k)) else OfNumber NaN)"

text \<open>The nine stores of a \<^verbatim>\<open>getTriangle\<close>, with the values \<open>c 0\<close> to \<open>c 8\<close>.\<close>

definition put9 :: "nat \<Rightarrow> (nat \<Rightarrow> jsfloat) \<Rightarrow> jsfloat list \<Rightarrow> jsfloat list" where
  "put9 i c td = td[9 * i := c 0, 9 * i + 1 := c 1, 9 * i + 2 := c 2, 9 * i + 3 := c 3,
     9 * i + 4 := c 4, 9 * i + 5 := c 5, 9 * i + 6 := c 6, 9 * i + 7 := c 7, 9 * i + 8 := c 8]"

text \<open>
  The number of triangle indices that \<^verbatim>\<open>runBatch\<close> visits for a count \<open>T\<close>: the
  first batch is always a full one.
\<close>

definition visited :: "nat \<Rightarrow> nat" where
  "visited T = PER_BATCH * max 1 (T div PER_BATCH) + (T - T div PER_BATCH * PER_BATCH)"

text \<open>The nine values that \<^verbatim>\<open>getTriangle\<close> of \<^verbatim>\<open>stl_ascii\<close> stores for the
  triangle \<open>i\<close>, as the source indexes them.\<close>

definition ascii_cells :: "string list \<Rightarrow> nat \<Rightarrow> jsfloat list" where
  "ascii_cells splice' i =
     (let v1 = js_split CHR '' '' (splice' ! (3 + 7 * i));
          v2 = js_split CHR '' '' (splice' ! (4 + 7 * i));
          v3 = js_split CHR '' '' (splice' ! (5 + 7 * i))
      in [store_string (js_index v1 (int (length v1) - 3)),
          store_string (js_index v1 (int (length v1) - 2)),
          store_string (js_index v1 (int (length v1) - 1)),
          store_string (js_index v2 (int (length v2) - 3)),
          store_string (js_index v2 (int (length v2) - 2)),
          store_string (js_index v2 (int (length v3) - 1)),
          store_string (js_index v3 (int (length v2) - 3)),
          store_string (js_index v3 (int (length v3) - 2)),
          store_string (js_index v3 (int (length v3) - 1))])"

text \<open>
  The vertex and the texture component of a face token, and the index that
  \<^verbatim>\<open>parseFace\<close> pushes for a component \<open>n\<close> when the array it refers to holds
  \<open>len\<close> numbers.
\<close>

definition face_of :: "string \<Rightarrow> int option" where
  "face_of tok = parseInt_opt (js_index (js_split CHR ''/'' tok) 0)"

definition texture_of :: "string \<Rightarrow> int option" where
  "texture_of tok = parseInt_opt (js_index (js_split CHR ''/'' tok) 1)"

definition resolved :: "int \<Rightarrow> nat \<Rightarrow> rat" where
  "resolved n len = (if n < 0 then rat_of_int n + (rat_of_nat len / 3 + 1) else rat_of_int n) - 1"

text \<open>
  The reading of the specification for the binary layout, to compare with the code: the
  nine floats in the first 36 bytes of the record that begins at byte \<open>84 + 50 * i\<close>.
\<close>

definition record_first36 :: "blob \<Rightarrow> nat \<Rightarrow> jsfloat list" where
  "record_first36 arr i = map (\<lambda>k. Float32Bits (le32 arr (84 + 50 * i + 4 * k))) [0..<9]"

subsection \<open>Inputs\<close>

text \<open>A viewer as its constructor leaves it, and the arrays with which
  \<^verbatim>\<open>packit.parseOBJ\<close> starts.\<close>

definition viewer0 :: Viewer where
  "viewer0 = \<lparr>attemptedASCII_STL = False, attemptedBINARY_STL = False, displayed = []\<rparr>"

definition arrays0 :: obj_arrays where
  "arrays0 = \<lparr>vertices = [], faces = [], uvs = [], uvfaces = []\<rparr>"

text \<open>A text made of lines, each ended by a newline.\<close>

definition lines_text :: "string list \<Rightarrow> string" where
  "lines_text ls = concat (map (\<lambda>l. l @ [CHR 0x0A]) ls)"

text \<open>An ASCII STL file of one triangle.\<close>

definition minimal_stl :: blob where
  "minimal_stl = ''solid a\<newline>facet normal 0 0 1\<newline>outer loop\<newline>vertex 0 0 0\<newline>vertex 1 0 0\<newline>vertex 0 1 0\<newline>endloop\<newline>endfacet\<newline>endsolid a\<newline>''"

text \<open>
  ASCII STL files of 500 and of 1250 triangles. In the first, the second vertex line of
  the first facet is indented by one space more than the third.
\<close>

definition facet_lines :: "string list" where
  "facet_lines = [''facet normal 0 0 1'', ''outer loop'', ''vertex 0 0 0'', ''vertex 1 0 0'',
     ''vertex 0 1 0'', ''endloop'', ''endfacet'']"

definition indented_facet_lines :: "string list" where
  "indented_facet_lines = [''facet normal 0 0 1'', ''outer loop'', ''vertex 1 2 3'',
     '' vertex 4 5 6'', ''vertex 7 8 9'', ''endloop'', ''endfacet'']"

definition indented_stl :: blob where
  "indented_stl = lines_text (''solid a'' # indented_facet_lines @
     concat (replicate 499 facet_lines) @ [''endsolid a''])"


text \<open>
  Binary STL files: a header and the count 1 with no record; the same with 14 more bytes;
  with one whole record (normal 0 0 1, vertices 2 3 4, 5 6 7, 8 9 10); a header, the
  count 1250 and 1250 records of zeros.
\<close>

definition count_only_stl :: blob where
  "count_only_stl = replicate 80 (CHR 0x00) @ [CHR 0x01, CHR 0x00, CHR 0x00, CHR 0x00]"

definition cut_stl :: blob where
  "cut_stl = replicate 80 (CHR 0x00) @ [CHR 0x01, CHR 0x00, CHR 0x00, CHR 0x00] @
     replicate 14 (CHR 0x00)"

definition one_record_stl :: blob where
  "one_record_stl = replicate 80 (CHR 0x00) @ [CHR 0x01, CHR 0x00, CHR 0x00, CHR 0x00] @
     [CHR 0x00, CHR 0x00, CHR 0x00, CHR 0x00,  CHR 0x00, CHR 0x00, CHR 0x00, CHR 0x00,
      CHR 0x00, CHR 0x00, CHR 0x80, CHR 0x3F,
      CHR 0x00, CHR 0x00, CHR 0x00, CHR 0x40,  CHR 0x00, CHR 0x00, CHR 0x40, CHR 0x40,
      CHR 0x00, CHR 0x00, CHR 0x80, CHR 0x40,
      CHR 0x00, CHR 0x00, CHR 0xA0, CHR 0x40,  CHR 0x00, CHR 0x00, CHR 0xC0, CHR 0x40,
      CHR 0x00, CHR 0x00, CHR 0xE0, CHR 0x40,
      CHR 0x00, CHR 0x00, CHR 0x00, CHR 0x41,  CHR 0x00, CHR 0x00, CHR 0x10, CHR 0x41,
      CHR 0x00, CHR 0x00, CHR 0x20, CHR 0x41,
      CHR 0x00, CHR 0x00]"


section \<open>Lemmas\<close>

lemma each_append:
  "each body (xs @ ys) s = (case each body xs s of Inl e \<Rightarrow> Inl e | Inr s' \<Rightarrow> each body ys s')"
  by (induction xs arbitrary: s) (auto split: sum.splits)

lemma each_map: "each body (map g xs) s = each (\<lambda>i. body (g i)) xs s"
  by (induction xs arbitrary: s) (auto split: sum.splits)

lemma for_loop_shift: "for_loop 0 n (\<lambda>i. body (a + i)) s = for_loop a (a + n) body s"
proof -
  have "[a..<a + n] = map (\<lambda>i. a + i) [0..<n]"
    by (induction n) auto
  then show ?thesis
    by (simp add: for_loop_def each_map)
qed

lemma for_loop_append:
  "a \<le> b \<Longrightarrow> b \<le> c \<Longrightarrow>
   for_loop a c body s = (case for_loop a b body s of Inl e \<Rightarrow> Inl e | Inr s' \<Rightarrow> for_loop b c body s')"
proof -
  assume "a \<le> b" "b \<le> c"
  then have "[a..<c] = [a..<b] @ [b..<c]"
    by (metis le_Suc_ex upt_add_eq_append)
  then show ?thesis
    by (simp add: for_loop_def each_append split: sum.splits)
qed

lemma runBatch_range:
  "runBatch getTriangle batchLimit remainder batchCount triangleData viewer =
     (case for_loop (PER_BATCH * batchCount)
             (PER_BATCH * max (batchCount + 1) batchLimit + remainder) getTriangle triangleData of
        Inl e \<Rightarrow> Inl e
      | Inr td \<Rightarrow> Inr (display viewer td None None None None))"
proof (induction getTriangle batchLimit remainder batchCount triangleData viewer
       rule: runBatch.induct)
  case (1 gt bl rm bc td v)
  let ?a = "PER_BATCH * bc" and ?b = "PER_BATCH * bc + PER_BATCH"
  let ?c = "PER_BATCH * max (bc + 1) bl + rm"
  have eq: "PER_BATCH * (bc + 1) = ?b" by simp
  have ab: "?a \<le> ?b" by simp
  have "PER_BATCH * (bc + 1) \<le> ?c" by (rule trans_le_add1) (rule mult_le_mono2, simp)
  then have bc: "?b \<le> ?c" by (simp only: eq)
  have first: "for_loop 0 PER_BATCH (\<lambda>i. gt (PER_BATCH * bc + i)) td = for_loop ?a ?b gt td"
    by (rule for_loop_shift)
  show ?case
  proof (cases "for_loop ?a ?b gt td")
    case (Inl e)
    then show ?thesis
      by (subst runBatch.simps) (simp only: first for_loop_append [OF ab bc] sum.case)
  next
    case (Inr td1)
    show ?thesis
    proof (cases "bc + 1 < bl")
      case True
      then have m: "max (bc + 1) bl = bl" "max (bc + 1 + 1) bl = bl" by simp_all
      have f1: "for_loop 0 PER_BATCH (\<lambda>i. gt (PER_BATCH * bc + i)) td = Inr td1"
        by (simp only: first Inr)
      have "runBatch gt bl rm bc td v = runBatch gt bl rm (bc + 1) td1 v"
        by (subst runBatch.simps) (simp only: first Inr True sum.case if_True)
      also have "\<dots> = (case for_loop (PER_BATCH * (bc + 1)) ?c gt td1 of Inl e \<Rightarrow> Inl e
                       | Inr td \<Rightarrow> Inr (display v td None None None None))"
        using "1.IH" [OF f1 True] m by simp
      finally show ?thesis
        by (simp only: eq for_loop_append [OF ab bc] Inr sum.case)
    next
      case False
      then have m: "max (bc + 1) bl = bc + 1" by simp
      have "for_loop 0 rm (\<lambda>i. gt (PER_BATCH * (bc + 1) + i)) td1 =
            for_loop (PER_BATCH * (bc + 1)) (PER_BATCH * (bc + 1) + rm) gt td1"
        by (rule for_loop_shift)
      then have "for_loop 0 rm (\<lambda>i. gt (PER_BATCH * (bc + 1) + i)) td1 = for_loop ?b ?c gt td1"
        by (simp only: m eq)
      then show ?thesis
        by (subst runBatch.simps) (simp only: first Inr False for_loop_append [OF ab bc] sum.case if_False)
    qed
  qed
qed

lemma length_words_le: "length (words_le w) = length w div 4"
  by (induction w rule: words_le.induct) auto

lemma words_le_nth: "k < length w div 4 \<Longrightarrow> words_le w ! k = le32 w (4 * k)"
proof (induction w arbitrary: k rule: words_le.induct)
  case (1 a b c d rest)
  show ?case
  proof (cases k)
    case 0
    then show ?thesis by (simp add: le32_def)
  next
    case (Suc j)
    with "1.prems" have "j < length rest div 4" by simp
    from "1.IH" [OF this] Suc show ?thesis
      by (simp add: le32_def add.commute)
  qed
qed simp_all

lemma length_slice: "length (slice buf b e) = min (e - b) (length buf - b)"
  by (simp add: slice_def)

lemma le32_slice:
  assumes "j + 4 \<le> length (slice buf b e)"
  shows "le32 (slice buf b e) j = le32 buf (b + j)"
proof -
  from assms have b: "b \<le> length buf" and j: "j + 3 < e - b"
    by (auto simp add: slice_def)
  have "slice buf b e ! (j + m) = buf ! (b + j + m)" if "m < 4" for m
    using that b j by (simp add: slice_def add.assoc)
  from this [of 0] this [of 1] this [of 2] this [of 3] show ?thesis
    by (simp add: le32_def)
qed

lemma window_cell:
  assumes "length (slice arr (96 + 50 * i) (132 + 50 * i)) mod 4 = 0" and "k < 9"
  shows "store_float (js_index (map Float32Bits (words_le (slice arr (96 + 50 * i) (132 + 50 * i)))) (int k))
         = binary_cell arr i k"
proof -
  let ?w = "slice arr (96 + 50 * i) (132 + 50 * i)"
  have len: "length ?w = min 36 (length arr - (96 + 50 * i))"
    by (simp add: length_slice)
  show ?thesis
  proof (cases "96 + 50 * i + 4 * k + 4 \<le> length arr")
    case True
    with assms(2) have k4: "4 * k + 4 \<le> length ?w" by (simp add: len)
    then have "k < length ?w div 4" by simp
    then show ?thesis
      using True k4 by (simp add: js_index_def store_float_def binary_cell_def length_words_le
          words_le_nth le32_slice add.assoc)
  next
    case False
    with assms have "\<not> k < length ?w div 4"
      by (simp add: len)
    then show ?thesis
      using False by (simp add: js_index_def store_float_def binary_cell_def length_words_le)
  qed
qed

lemma length_put9: "length (put9 i c td) = length td"
  by (simp add: put9_def)

lemma nth_put9:
  assumes "p < length td"
  shows "put9 i c td ! p = (if p div 9 = i then c (p mod 9) else td ! p)"
proof (cases "p div 9 = i")
  case True
  then have p: "p = 9 * i + p mod 9" by (metis div_mult_mod_eq mult.commute)
  have "p mod 9 < 9" by simp
  then consider "p mod 9 = 0" | "p mod 9 = 1" | "p mod 9 = 2" | "p mod 9 = 3" | "p mod 9 = 4"
    | "p mod 9 = 5" | "p mod 9 = 6" | "p mod 9 = 7" | "p mod 9 = 8"
    by atomize_elim arith
  then show ?thesis
  proof cases
    case 1 with p assms True show ?thesis by (simp add: put9_def nth_list_update) 
  next
    case 2 with p assms True show ?thesis by (simp add: put9_def nth_list_update) 
  next
    case 3 with p assms True show ?thesis by (simp add: put9_def nth_list_update) 
  next
    case 4 with p assms True show ?thesis by (simp add: put9_def nth_list_update) 
  next
    case 5 with p assms True show ?thesis by (simp add: put9_def nth_list_update) 
  next
    case 6 with p assms True show ?thesis by (simp add: put9_def nth_list_update) 
  next
    case 7 with p assms True show ?thesis by (simp add: put9_def nth_list_update) 
  next
    case 8 with p assms True show ?thesis by (simp add: put9_def nth_list_update) 
  next
    case 9 with p assms True show ?thesis by (simp add: put9_def nth_list_update) 
  qed
next
  case False
  then have "p \<noteq> 9 * i + k" if "k < 9" for k
    using that by auto
  from this [of 0] this [of 1] this [of 2] this [of 3] this [of 4] this [of 5] this [of 6]
    this [of 7] this [of 8] False
  show ?thesis by (simp add: put9_def)
qed

lemma each_put9:
  assumes "\<And>i td. i \<in> set xs \<Longrightarrow> getTriangle i td = Inr (put9 i (c i) td)"
  shows "\<exists>td'. each getTriangle xs td = Inr td' \<and> length td' = length td \<and>
           (\<forall>p<length td. td' ! p = (if p div 9 \<in> set xs then c (p div 9) (p mod 9) else td ! p))"
  using assms
proof (induction xs arbitrary: td)
  case Nil
  then show ?case by simp
next
  case (Cons i xs)
  have step: "getTriangle i td = Inr (put9 i (c i) td)"
    by (rule Cons.prems) simp
  from Cons.IH [of "put9 i (c i) td"] Cons.prems
  obtain td' where td': "each getTriangle xs (put9 i (c i) td) = Inr td'"
    "length td' = length td"
    "\<forall>p<length td. td' ! p =
        (if p div 9 \<in> set xs then c (p div 9) (p mod 9) else put9 i (c i) td ! p)"
    by (auto simp: length_put9)
  have "td' ! p = (if p div 9 \<in> set (i # xs) then c (p div 9) (p mod 9) else td ! p)"
    if "p < length td" for p
    using td'(3) that by (simp add: nth_put9)
  with td'(1,2) step show ?case by simp
qed

lemma each_fails:
  assumes "i \<in> set xs" and "\<And>s. \<exists>e. body i s = Inl e"
  shows "\<exists>e. each body xs s = Inl e"
  using assms(1)
proof (induction xs arbitrary: s)
  case Nil
  then show ?case by simp
next
  case (Cons j xs)
  show ?case
  proof (cases "body j s")
    case (Inl e)
    then show ?thesis by simp
  next
    case (Inr s')
    with assms(2) [of s] have "j \<noteq> i" by auto
    with Cons.prems have "i \<in> set xs" by simp
    from Cons.IH [OF this, of s'] Inr show ?thesis by simp
  qed
qed

lemma binary_getTriangle_eq:
  "stl_binary_getTriangle arr i td =
     (if window_cut arr i then Inl RangeError else Inr (put9 i (binary_cell arr i) td))"
  using window_cell [of arr i 0] window_cell [of arr i 1] window_cell [of arr i 2]
    window_cell [of arr i 3] window_cell [of arr i 4] window_cell [of arr i 5]
    window_cell [of arr i 6] window_cell [of arr i 7] window_cell [of arr i 8]
  by (simp add: stl_binary_getTriangle_def Float32Array_buffer_def window_cut_def put9_def)

lemma visited_ge: "T \<le> visited T"
proof -
  have "T = T div PER_BATCH * PER_BATCH + T mod PER_BATCH" by simp
  also have "\<dots> \<le> PER_BATCH * max 1 (T div PER_BATCH) + T mod PER_BATCH"
    by (simp only: mult.commute [of _ PER_BATCH] add_le_cancel_right) (rule mult_le_mono2, simp)
  also have "T mod PER_BATCH = T - T div PER_BATCH * PER_BATCH"
    by (simp add: minus_div_mult_eq_mod)
  finally show ?thesis by (simp add: visited_def)
qed

lemma visited_eq: "visited T = (if T < PER_BATCH then PER_BATCH + T else T)"
proof (cases "T < PER_BATCH")
  case True
  then show ?thesis by (simp add: visited_def)
next
  case False
  then have "1 \<le> T div PER_BATCH"
    by (simp add: PER_BATCH_def div_greater_zero_iff Suc_le_eq)
  then have "max 1 (T div PER_BATCH) = T div PER_BATCH" by simp
  moreover have "T - T div PER_BATCH * PER_BATCH = T mod PER_BATCH"
    by (simp add: minus_div_mult_eq_mod)
  ultimately show ?thesis using False by (simp add: visited_def)
qed

lemma batch_numbers:
  "js_trunc (rat_of_nat T) = int T"
  "nat \<lfloor>rat_of_nat T / rat_of_nat PER_BATCH\<rfloor> = T div PER_BATCH"
  "nat \<lfloor>rat_of_nat T - rat_of_nat (T div PER_BATCH) * rat_of_nat PER_BATCH\<rfloor>
     = T - T div PER_BATCH * PER_BATCH"
  "Float32Array_length (rat_of_nat T * 9) =
     (if 9 * T \<le> MAX_TYPED_ARRAY_LENGTH then Inr (replicate (9 * T) (OfNumber (Num 0)))
      else Inl RangeError)"
proof -
  show "js_trunc (rat_of_nat T) = int T" by (simp add: js_trunc_def)
  show "nat \<lfloor>rat_of_nat T / rat_of_nat PER_BATCH\<rfloor> = T div PER_BATCH"
    by (simp add: floor_divide_of_nat_eq)
  have "T div PER_BATCH * PER_BATCH \<le> T" by simp
  then have "rat_of_nat T - rat_of_nat (T div PER_BATCH) * rat_of_nat PER_BATCH
      = rat_of_nat (T - T div PER_BATCH * PER_BATCH)"
    by (simp add: of_nat_diff)
  then show "nat \<lfloor>rat_of_nat T - rat_of_nat (T div PER_BATCH) * rat_of_nat PER_BATCH\<rfloor>
     = T - T div PER_BATCH * PER_BATCH"
    by (simp only: floor_of_nat nat_int)
  have "rat_of_nat T * 9 = rat_of_nat (9 * T)" by simp
  then show "Float32Array_length (rat_of_nat T * 9) =
     (if 9 * T \<le> MAX_TYPED_ARRAY_LENGTH then Inr (replicate (9 * T) (OfNumber (Num 0)))
      else Inl RangeError)"
    by (simp only: Float32Array_length_def floor_of_nat nat_int of_nat_less_iff of_nat_less_0_iff)
      (simp add: not_le)
qed

lemma runBatch_visited:
  "runBatch getTriangle (T div PER_BATCH) (T - T div PER_BATCH * PER_BATCH) 0 td viewer =
     (case for_loop 0 (visited T) getTriangle td of
        Inl e \<Rightarrow> Inl e
      | Inr td' \<Rightarrow> Inr (display viewer td' None None None None))"
  by (simp add: runBatch_range visited_def)

lemma count_header:
  assumes "84 \<le> length arr"
  shows "Uint32Array_buffer (slice arr 80 84) = Inr [le32 arr 80]"
proof -
  let ?w = "slice arr 80 84"
  from assms have len: "length ?w = 4" by (simp add: length_slice)
  then have "length (words_le ?w) = 1" by (simp add: length_words_le)
  moreover have "words_le ?w ! 0 = le32 arr 80"
    using words_le_nth [of 0 ?w] le32_slice [of 0 arr 80 84] len by simp
  ultimately have "words_le ?w = [le32 arr 80]"
    by (cases "words_le ?w") auto
  with len show ?thesis by (simp add: Uint32Array_buffer_def)
qed

lemma stl_binary_try_short:
  assumes "length arr < 84"
  shows "stl_binary_try arr viewer =
           Inl (if length arr \<le> 80 then IllegalParse else RangeError)"
proof -
  let ?w = "slice arr 80 84"
  from assms have len: "length ?w < 4" by (simp add: length_slice)
  show ?thesis
  proof (cases "length arr \<le> 80")
    case True
    then have "length ?w = 0" by (simp add: length_slice)
    with True show ?thesis
      by (simp add: stl_binary_try_def Uint32Array_buffer_def js_index_def)
  next
    case False
    with len have "length ?w mod 4 \<noteq> 0" by (simp add: length_slice)
    with False show ?thesis
      by (simp add: stl_binary_try_def Uint32Array_buffer_def)
  qed
qed

lemma stl_binary_try_long:
  assumes "84 \<le> length arr"
  shows "stl_binary_try arr viewer =
     (if 9 * unat (le32 arr 80) \<le> MAX_TYPED_ARRAY_LENGTH
      then (case for_loop 0 (visited (unat (le32 arr 80))) (stl_binary_getTriangle arr)
                   (replicate (9 * unat (le32 arr 80)) (OfNumber (Num 0))) of
              Inl e \<Rightarrow> Inl e
            | Inr td' \<Rightarrow> Inr (display viewer td' None None None None))
      else Inl RangeError)"
  by (simp add: stl_binary_try_def count_header [OF assms] js_index_def batch_numbers
      runBatch_visited Let_def del: of_nat_unat)

lemma stl_binary_try_cut:
  assumes "84 \<le> length arr" and "i < visited (unat (le32 arr 80))" and "window_cut arr i"
  shows "\<exists>e. stl_binary_try arr viewer = Inl e"
proof -
  from assms(2) have "i \<in> set [0..<visited (unat (le32 arr 80))]" by simp
  from each_fails [OF this, of "stl_binary_getTriangle arr"] assms(3)
  obtain e where "for_loop 0 (visited (unat (le32 arr 80))) (stl_binary_getTriangle arr)
             (replicate (9 * unat (le32 arr 80)) (OfNumber (Num 0))) = Inl e"
    by (auto simp: for_loop_def binary_getTriangle_eq)
  then show ?thesis
    by (simp add: stl_binary_try_long [OF assms(1)])
qed

lemma stl_binary_try_ok:
  assumes "84 \<le> length arr" and "\<And>i. i < visited (unat (le32 arr 80)) \<Longrightarrow> \<not> window_cut arr i"
    and "9 * unat (le32 arr 80) \<le> MAX_TYPED_ARRAY_LENGTH"
  shows "stl_binary_try arr viewer =
     Inr (display viewer
       (map (\<lambda>p. binary_cell arr (p div 9) (p mod 9)) [0..<9 * unat (le32 arr 80)])
       None None None None)"
proof -
  let ?T = "unat (le32 arr 80)"
  let ?td = "replicate (9 * ?T) (OfNumber (Num 0))"
  have "\<And>i td. i \<in> set [0..<visited ?T] \<Longrightarrow>
      stl_binary_getTriangle arr i td = Inr (put9 i (binary_cell arr i) td)"
    using assms(2) by (simp add: binary_getTriangle_eq)
  from each_put9 [of "[0..<visited ?T]" "stl_binary_getTriangle arr" "binary_cell arr" ?td, OF this]
  obtain td' where td': "for_loop 0 (visited ?T) (stl_binary_getTriangle arr) ?td = Inr td'"
    "length td' = 9 * ?T"
    "\<forall>p<9 * ?T. td' ! p =
       (if p div 9 < visited ?T then binary_cell arr (p div 9) (p mod 9) else ?td ! p)"
    by (auto simp: for_loop_def)
  have "td' ! p = binary_cell arr (p div 9) (p mod 9)" if "p < 9 * ?T" for p
  proof -
    from that have "p div 9 < ?T" by simp
    with visited_ge [of ?T] have "p div 9 < visited ?T" by simp
    with td'(3) that show ?thesis by simp
  qed
  with td'(2) have "td' = map (\<lambda>p. binary_cell arr (p div 9) (p mod 9)) [0..<9 * ?T]"
    by (intro nth_equalityI) simp_all
  with td'(1) assms(3) show ?thesis
    by (simp add: stl_binary_try_long [OF assms(1)])
qed

lemma js_index_nat: "js_index xs (int n) = (if n < length xs then Some (xs ! n) else None)"
  by (simp add: js_index_def)

lemma ascii_getTriangle_eq:
  "stl_ascii_getTriangle splice' i td =
     (if 5 + 7 * i < length splice' then Inr (put9 i (\<lambda>k. ascii_cells splice' i ! k) td)
      else Inl TypeError)"
proof (cases "5 + 7 * i < length splice'")
  case True
  then have "3 + 7 * i < length splice'" "4 + 7 * i < length splice'" by simp_all
  with True show ?thesis
    unfolding stl_ascii_getTriangle_def js_index_nat put9_def ascii_cells_def Let_def
    by simp
next
  case False
  then show ?thesis
    unfolding stl_ascii_getTriangle_def js_index_nat
    by (simp split: option.splits)
qed

lemma ascii_count:
  assumes "length splice' = 7 * N + 3"
  shows "(rat_of_nat (length splice') - 3) / 7 = rat_of_nat N"
  using assms by simp

lemma ascii_count_integer:
  assumes "(rat_of_nat n - 3) / 7 = rat_of_int (js_trunc ((rat_of_nat n - 3) / 7))" and "0 < n"
  shows "\<exists>N. n = 7 * N + 3"
proof -
  define z where "z = js_trunc ((rat_of_nat n - 3) / 7)"
  with assms(1) have "rat_of_nat n - 3 = 7 * rat_of_int z" by simp
  then have "rat_of_int (int n) = rat_of_int (7 * z + 3)" by simp
  then have eq: "int n = 7 * z + 3" by (simp only: of_int_eq_iff)
  with assms(2) have "0 \<le> z" by linarith
  with eq have "n = 7 * nat z + 3" by linarith
  then show ?thesis ..
qed

lemma length_js_split_pos: "0 < length (js_split c s)"
  by (induction s) (auto split: list.splits)

lemma stl_ascii_try_count:
  assumes "length (js_split CHR 0x0A text) = 7 * N + 3"
  shows "stl_ascii_try text viewer =
     (if 9 * N \<le> MAX_TYPED_ARRAY_LENGTH
      then (case for_loop 0 (visited N) (stl_ascii_getTriangle (js_split CHR 0x0A text))
                   (replicate (9 * N) (OfNumber (Num 0))) of
              Inl e \<Rightarrow> Inl e
            | Inr td' \<Rightarrow> Inr (display viewer td' None None None None))
      else Inl RangeError)"
  unfolding stl_ascii_try_def Let_def ascii_count [OF assms]
  by (simp add: batch_numbers runBatch_visited)

lemma stl_ascii_try_not_integer:
  assumes "\<And>N. length (js_split CHR 0x0A text) \<noteq> 7 * N + 3"
  shows "stl_ascii_try text viewer = Inl IllegalParse"
proof -
  let ?n = "length (js_split CHR 0x0A text)"
  have "(rat_of_nat ?n - 3) / 7 \<noteq> rat_of_int (js_trunc ((rat_of_nat ?n - 3) / 7))"
  proof
    assume "(rat_of_nat ?n - 3) / 7 = rat_of_int (js_trunc ((rat_of_nat ?n - 3) / 7))"
    from ascii_count_integer [OF this length_js_split_pos] assms show False by auto
  qed
  then show ?thesis
    by (simp add: stl_ascii_try_def Let_def)
qed

lemma visited_ge_batch: "PER_BATCH \<le> visited T"
  by (simp add: visited_eq)

lemma each_error:
  "each body xs s = Inl e \<Longrightarrow> \<exists>i\<in>set xs. \<exists>s'. body i s' = Inl e"
  by (induction xs arbitrary: s) (auto split: sum.splits)

lemma stl_ascii_try_small:
  assumes "length (js_split CHR 0x0A text) = 7 * N + 3" and "N < PER_BATCH"
  shows "stl_ascii_try text viewer = Inl TypeError"
proof -
  let ?sp = "js_split CHR 0x0A text"
  from assms(2) have mem: "N \<in> set [0..<visited N]" by (simp add: visited_eq)
  have "\<And>s. \<exists>e. stl_ascii_getTriangle ?sp N s = Inl e"
    using assms(1) by (simp add: ascii_getTriangle_eq)
  from each_fails [of N "[0..<visited N]" "stl_ascii_getTriangle ?sp", OF mem this]
  obtain e where e: "for_loop 0 (visited N) (stl_ascii_getTriangle ?sp)
      (replicate (9 * N) (OfNumber (Num 0))) = Inl e"
    unfolding for_loop_def by auto
  from each_error [OF e [unfolded for_loop_def]] have "e = TypeError"
    by (auto simp: ascii_getTriangle_eq split: if_splits)
  moreover from assms(2) have "9 * N \<le> MAX_TYPED_ARRAY_LENGTH"
    by (simp add: PER_BATCH_def MAX_TYPED_ARRAY_LENGTH_def)
  ultimately show ?thesis using e
    by (simp add: stl_ascii_try_count [OF assms(1)])
qed

lemma stl_ascii_try_ok:
  assumes "length (js_split CHR 0x0A text) = 7 * N + 3" and "PER_BATCH \<le> N"
    and "9 * N \<le> MAX_TYPED_ARRAY_LENGTH"
  shows "stl_ascii_try text viewer =
     Inr (display viewer
       (map (\<lambda>p. ascii_cells (js_split CHR 0x0A text) (p div 9) ! (p mod 9)) [0..<9 * N])
       None None None None)"
proof -
  let ?sp = "js_split CHR 0x0A text"
  let ?td = "replicate (9 * N) (OfNumber (Num 0))"
  from assms(2) have vis: "visited N = N" by (simp add: visited_eq)
  have "\<And>i td. i \<in> set [0..<N] \<Longrightarrow>
      stl_ascii_getTriangle ?sp i td = Inr (put9 i (\<lambda>k. ascii_cells ?sp i ! k) td)"
    using assms(1) by (simp add: ascii_getTriangle_eq)
  from each_put9 [of "[0..<N]" "stl_ascii_getTriangle ?sp" "\<lambda>i k. ascii_cells ?sp i ! k" ?td,
      OF this]
  obtain td' where td': "for_loop 0 N (stl_ascii_getTriangle ?sp) ?td = Inr td'"
    "length td' = 9 * N"
    "\<forall>p<9 * N. td' ! p =
       (if p div 9 < N then ascii_cells ?sp (p div 9) ! (p mod 9) else ?td ! p)"
    by (auto simp: for_loop_def)
  have "td' ! p = ascii_cells ?sp (p div 9) ! (p mod 9)" if "p < 9 * N" for p
  proof -
    from that have "p div 9 < N" by simp
    with td'(3) that show ?thesis by simp
  qed
  with td'(2) have "td' = map (\<lambda>p. ascii_cells ?sp (p div 9) ! (p mod 9)) [0..<9 * N]"
    by (intro nth_equalityI) simp_all
  with td'(1) assms(3) show ?thesis
    by (simp add: stl_ascii_try_count [OF assms(1)] vis)
qed

lemma stl_ascii_noop: "attemptedASCII_STL viewer \<Longrightarrow> stl_ascii data viewer = Inr viewer"
  by (simp add: stl_ascii.simps)

lemma stl_binary_noop: "attemptedBINARY_STL viewer \<Longrightarrow> stl_binary data viewer = Inr viewer"
  by (simp add: stl_binary.simps)

lemma stl_ascii_ok:
  "\<not> attemptedASCII_STL viewer \<Longrightarrow> stl_ascii_try (readAsText data) viewer = Inr viewer' \<Longrightarrow>
   stl_ascii data viewer = Inr viewer'"
  by (simp add: stl_ascii.simps)

lemma stl_binary_ok:
  "\<not> attemptedBINARY_STL viewer \<Longrightarrow> stl_binary_try data viewer = Inr viewer' \<Longrightarrow>
   stl_binary data viewer = Inr viewer'"
  by (simp add: stl_binary.simps)

lemma stl_ascii_fail:
  "\<not> attemptedASCII_STL viewer \<Longrightarrow> stl_ascii_try (readAsText data) viewer = Inl e \<Longrightarrow>
   stl_ascii data viewer = stl_binary data (viewer\<lparr>attemptedASCII_STL := True\<rparr>)"
  by (simp add: stl_ascii.simps)

lemma stl_binary_fail:
  "\<not> attemptedBINARY_STL viewer \<Longrightarrow> stl_binary_try data viewer = Inl e \<Longrightarrow>
   stl_binary data viewer = stl_ascii data (viewer\<lparr>attemptedBINARY_STL := True\<rparr>)"
  by (simp add: stl_binary.simps)

lemma stl_binary_try_viewer:
  assumes "stl_binary_try arr viewer = Inl e"
  shows "stl_binary_try arr viewer' = Inl e"
proof (cases "84 \<le> length arr")
  case True
  from assms show ?thesis
    by (auto simp add: stl_binary_try_long [OF True] split: sum.splits if_splits)
next
  case False
  with assms show ?thesis
    by (simp add: stl_binary_try_short)
qed

lemma stl_ascii_try_viewer:
  assumes "stl_ascii_try text viewer = Inl e"
  shows "stl_ascii_try text viewer' = Inl e"
proof (cases "\<exists>N. length (js_split CHR 0x0A text) = 7 * N + 3")
  case True
  then obtain N where N: "length (js_split CHR 0x0A text) = 7 * N + 3" ..
  from assms show ?thesis
    by (auto simp add: stl_ascii_try_count [OF N] split: sum.splits if_splits)
next
  case False
  then have "\<And>N. length (js_split CHR 0x0A text) \<noteq> 7 * N + 3" by simp
  from stl_ascii_try_not_integer [OF this] assms show ?thesis by simp
qed

lemma no_cut_inside: "132 + 50 * i \<le> length arr \<Longrightarrow> \<not> window_cut arr i"
  by (simp add: window_cut_def length_slice)

lemma no_cut_outside: "length arr \<le> 96 + 50 * i \<Longrightarrow> \<not> window_cut arr i"
  by (simp add: window_cut_def length_slice)


lemma upt_0_9: "[0..<9] = [0, 1, 2, 3, 4, 5, 6, 7, 8::nat]"
  by code_simp

lemma count_only_len: "length count_only_stl = 84" by (simp add: count_only_stl_def)

lemma count_only_count: "le32 count_only_stl 80 = 1"
  by (simp add: count_only_stl_def le32_def nth_append)

lemma one_record_len: "length one_record_stl = 134" by (simp add: one_record_stl_def)

lemma one_record_count: "le32 one_record_stl 80 = 1"
  by (simp add: one_record_stl_def le32_def nth_append)

lemma one_record_try:
  "stl_binary_try one_record_stl viewer0 =
     Inr (display viewer0
        [Float32Bits 0x40000000, Float32Bits 0x40400000, Float32Bits 0x40800000,
         Float32Bits 0x40A00000, Float32Bits 0x40C00000, Float32Bits 0x40E00000,
         Float32Bits 0x41000000, Float32Bits 0x41100000, Float32Bits 0x41200000]
        None None None None)"
proof -
  have "\<not> window_cut one_record_stl i" for i
  proof (cases i)
    case 0
    then show ?thesis by (simp add: no_cut_inside one_record_len)
  next
    case (Suc j)
    then show ?thesis by (simp add: no_cut_outside one_record_len)
  qed
  from stl_binary_try_ok [of one_record_stl viewer0, OF _ this]
  show ?thesis
    by (simp add: one_record_len one_record_count binary_cell_def upt_0_9
        MAX_TYPED_ARRAY_LENGTH_def)
      (simp add: le32_def one_record_stl_def nth_append)
qed

lemma js_split_line: "c \<notin> set l \<Longrightarrow> js_split c (l @ c # rest) = l # js_split c rest"
  by (induction l) auto

lemma js_split_lines:
  "(\<And>l. l \<in> set ls \<Longrightarrow> CHR 0x0A \<notin> set l) \<Longrightarrow> js_split CHR 0x0A (lines_text ls) = ls @ [[]]"
proof (induction ls)
  case Nil
  then show ?case by (simp add: lines_text_def)
next
  case (Cons l ls)
  then have "js_split CHR 0x0A (lines_text ls) = ls @ [[]]" by simp
  moreover have "lines_text (l # ls) = l @ CHR 0x0A # lines_text ls"
    by (simp add: lines_text_def)
  ultimately show ?case using Cons.prems by (simp add: js_split_line)
qed

lemma length_concat_replicate: "length (concat (replicate n xs)) = n * length xs"
  by (induction n) auto

lemma set_concat_replicate: "set (concat (replicate n xs)) \<subseteq> set xs"
  by (induction n) auto

lemma facet_lines_no_newline: "l \<in> set facet_lines \<Longrightarrow> CHR 0x0A \<notin> set l"
  by (auto simp: facet_lines_def)

lemma indented_split:
  "js_split CHR 0x0A indented_stl =
     (''solid a'' # indented_facet_lines @ concat (replicate 499 facet_lines) @ [''endsolid a''])
       @ [[]]"
  unfolding indented_stl_def
proof (rule js_split_lines)
  fix l
  assume "l \<in> set (''solid a'' # indented_facet_lines @ concat (replicate 499 facet_lines) @
    [''endsolid a''])"
  then consider "l = ''solid a''" | "l \<in> set indented_facet_lines"
    | "l \<in> set facet_lines" | "l = ''endsolid a''"
    using set_concat_replicate [of 499 facet_lines] by auto
  then show "CHR 0x0A \<notin> set l"
    by cases (auto simp: facet_lines_def indented_facet_lines_def)
qed

lemma take_map_upt: "m \<le> n \<Longrightarrow> take m (map f [0..<n]) = map f [0..<m]"
  by (simp add: take_map)

lemma indented_cells:
  "ascii_cells (js_split CHR 0x0A indented_stl) 0 =
     [StringToNumber ''1'', StringToNumber ''2'', StringToNumber ''3'',
      StringToNumber ''4'', StringToNumber ''5'', StringToNumber ''5'',
      StringToNumber ''8'', StringToNumber ''8'', StringToNumber ''9'']"
  by (simp add: indented_split ascii_cells_def indented_facet_lines_def js_index_def
      store_string_def)





lemma each_total:
  "(\<And>i s. i \<in> set xs \<Longrightarrow> \<exists>s'. body i s = Inr s') \<Longrightarrow> \<exists>s'. each body xs s = Inr s'"
proof (induction xs arbitrary: s)
  case Nil
  then show ?case by simp
next
  case (Cons i xs)
  from Cons.prems [of i s] obtain s1 where s1: "body i s = Inr s1" by auto
  from Cons.IH [of s1] Cons.prems obtain s2 where "each body xs s1 = Inr s2" by auto
  with s1 show ?case by simp
qed

lemma each_indices:
  assumes "\<And>i s. i < length arr \<Longrightarrow> body i s = Inr (g (arr ! i) s)"
  shows "each body [0..<length arr] s = Inr (fold g arr s)"
  using assms
proof (induction arr arbitrary: s body rule: rev_induct)
  case Nil
  then show ?case by simp
next
  case (snoc x xs)
  have "each body [0..<length xs] s = Inr (fold g xs s)"
  proof (rule snoc.IH)
    fix i s'
    assume "i < length xs"
    with snoc.prems [of i s'] show "body i s' = Inr (g (xs ! i) s')"
      by (simp add: nth_append)
  qed
  moreover have "body (length xs) s' = Inr (g x s')" for s'
    using snoc.prems [of "length xs" s'] by simp
  ultimately show ?case
    by (simp add: each_append)
qed

lemma isNaN_parseFloat: "isNaN (parseFloat tok) = (\<not> isNumeric tok)"
  by (simp add: isNaN_def parseFloat_def)

lemma fold_vertices:
  "fold (\<lambda>tok st. if \<not> isNaN (parseFloat tok) then st\<lparr>vertices := vertices st @ [parseFloat tok]\<rparr> else st) toks st
   = st\<lparr>vertices := vertices st @ map parseFloat (filter isNumeric toks)\<rparr>"
  by (induction toks arbitrary: st) (simp_all add: isNaN_parseFloat)

lemma fold_uvs:
  "fold (\<lambda>tok st. if \<not> isNaN (parseFloat tok) then st\<lparr>uvs := uvs st @ [parseFloat tok]\<rparr> else st) toks st
   = st\<lparr>uvs := uvs st @ map parseFloat (filter isNumeric toks)\<rparr>"
  by (induction toks arbitrary: st) (simp_all add: isNaN_parseFloat)

lemma parseVertex_eq:
  "parseVertex line st =
     Inr (st\<lparr>vertices := vertices st @ map parseFloat (filter isNumeric (js_split CHR '' '' line))\<rparr>)"
proof -
  let ?arr = "js_split CHR '' '' line"
  have "each (\<lambda>i st. let el = parseFloat_opt (js_index ?arr (int i))
                    in Inr (if \<not> isNaN el then st\<lparr>vertices := vertices st @ [el]\<rparr> else st))
          [0..<length ?arr] st
        = Inr (fold (\<lambda>tok st. if \<not> isNaN (parseFloat tok)
                  then st\<lparr>vertices := vertices st @ [parseFloat tok]\<rparr> else st) ?arr st)"
    by (rule each_indices) (simp add: js_index_nat parseFloat_opt_def)
  then show ?thesis
    by (simp add: parseVertex_def for_loop_def fold_vertices)
qed

lemma parseUV_eq:
  "parseUV line st =
     Inr (st\<lparr>uvs := uvs st @ map parseFloat (filter isNumeric (js_split CHR '' '' line))\<rparr>)"
proof -
  let ?arr = "js_split CHR '' '' line"
  have "each (\<lambda>i st. let el = parseFloat_opt (js_index ?arr (int i))
                    in Inr (if \<not> isNaN el then st\<lparr>uvs := uvs st @ [el]\<rparr> else st))
          [0..<length ?arr] st
        = Inr (fold (\<lambda>tok st. if \<not> isNaN (parseFloat tok)
                  then st\<lparr>uvs := uvs st @ [parseFloat tok]\<rparr> else st) ?arr st)"
    by (rule each_indices) (simp add: js_index_nat parseFloat_opt_def)
  then show ?thesis
    by (simp add: parseUV_def for_loop_def fold_uvs)
qed

lemma parseFace_body_eq:
  assumes "i < length arr"
  shows "parseFace_body arr i st =
     (case face_of (arr ! i) of
        None \<Rightarrow> Inr st
      | Some f \<Rightarrow>
          Inr (st\<lparr>faces := push_corner i (Some (Num (resolved f (length (vertices st))))) (faces st),
                uvfaces := push_corner i
                  (Some (case texture_of (arr ! i) of None \<Rightarrow> NaN
                         | Some t \<Rightarrow> Num (resolved t (length (uvs st)))))
                  (uvfaces st)\<rparr>))"
  using assms
  by (simp add: parseFace_body_def js_index_nat face_of_def texture_of_def resolved_def Let_def
      split: option.splits)

lemma parseFace_total: "\<exists>st'. parseFace line st = Inr st'"
  unfolding parseFace_def Let_def for_loop_def
proof (rule each_total)
  fix i s
  assume "i \<in> set [1..<length (js_split CHR '' '' line) - 1]"
  then have "i < length (js_split CHR '' '' line)" by auto
  then show "\<exists>s'. parseFace_body (js_split CHR '' '' line) i s = Inr s'"
    by (simp add: parseFace_body_eq split: option.splits)
qed

lemma parseOBJ_line_total:
  "i < length splice' \<Longrightarrow> \<exists>st'. parseOBJ_line splice' i st = Inr st'"
  by (simp add: parseOBJ_line_def js_index_nat Let_def parseVertex_eq parseUV_eq parseFace_total)

lemma parseOBJ_total:
  "\<exists>mesh. parseOBJ data viewer = Inr (viewer\<lparr>displayed := displayed viewer @ [mesh]\<rparr>)"
proof -
  let ?sp = "js_split CHR 0x0A (readAsText data)"
  have "\<exists>st. each (parseOBJ_line ?sp) [0..<length ?sp] arrays0 = Inr st"
    by (rule each_total) (simp add: parseOBJ_line_total)
  then show ?thesis
    by (auto simp: parseOBJ_def for_loop_def Let_def display_def arrays0_def)
qed

lemma each_cong:
  "(\<And>i s. i \<in> set xs \<Longrightarrow> f i s = g i s) \<Longrightarrow> each f xs s = each g xs s"
  by (induction xs arbitrary: s) (simp_all split: sum.splits)

text \<open>The loop of \<^verbatim>\<open>parseFace\<close> never reads the last token of its line.\<close>

lemma parseFace_last_token_unread:
  assumes "js_split CHR '' '' line1 = arr @ [l1]" and "js_split CHR '' '' line2 = arr @ [l2]"
  shows "parseFace line1 st = parseFace line2 st"
proof -
  have "parseFace_body (arr @ [l1]) i s = parseFace_body (arr @ [l2]) i s"
    if "i \<in> set [1..<length arr]" for i s
    using that by (simp add: parseFace_body_def js_index_nat nth_append)
  then have "each (parseFace_body (arr @ [l1])) [1..<length arr] st =
             each (parseFace_body (arr @ [l2])) [1..<length arr] st"
    by (rule each_cong)
  then show ?thesis
    by (simp add: parseFace_def for_loop_def assms)
qed

section \<open>The claims\<close>

subsection \<open>C1: an ASCII file of one triangle\<close>

lemma double_failure:
  assumes "stl_ascii_try (readAsText data) viewer = Inl ea"
    and "stl_binary_try data viewer = Inl eb"
    and "\<not> attemptedASCII_STL viewer" and "\<not> attemptedBINARY_STL viewer"
  shows "stl_ascii data viewer =
           Inr (viewer\<lparr>attemptedASCII_STL := True, attemptedBINARY_STL := True\<rparr>)"
    and "stl_binary data viewer =
           Inr (viewer\<lparr>attemptedASCII_STL := True, attemptedBINARY_STL := True\<rparr>)"
proof -
  let ?va = "viewer\<lparr>attemptedASCII_STL := True\<rparr>"
  let ?vb = "viewer\<lparr>attemptedBINARY_STL := True\<rparr>"
  let ?vab = "viewer\<lparr>attemptedASCII_STL := True, attemptedBINARY_STL := True\<rparr>"
  have eq: "?vb\<lparr>attemptedASCII_STL := True\<rparr> = ?vab" by simp
  show "stl_ascii data viewer = Inr ?vab"
    using assms stl_binary_try_viewer [OF assms(2), of ?va]
    by (simp add: stl_ascii_fail stl_binary_fail stl_ascii_noop)
  show "stl_binary data viewer = Inr ?vab"
    using assms stl_ascii_try_viewer [OF assms(1), of ?vb]
    by (simp add: stl_ascii_fail stl_binary_fail stl_binary_noop eq)
qed

text \<open>
  Claim C1 says that the ASCII parser emits \<open>9 * N\<close> floats for every valid ASCII file of
  \<open>N\<close> triangles, and for the file of one triangle the nine coordinates of its vertex
  lines. The code does not: \<^verbatim>\<open>runBatch\<close> runs a whole batch of 500 before it looks at
  \<open>batchLimit\<close>, so for a file of fewer than 500 triangles \<^verbatim>\<open>getTriangle\<close> reaches a
  line that does not exist and throws (lemma \<open>stl_ascii_try_small\<close>). On the file of one
  triangle the ASCII parser sets its flag and calls the binary parser, which fails on the
  text as well; nothing is displayed.
\<close>

theorem stl_ascii_one_triangle_falls_back:
  "stl_ascii minimal_stl viewer0 =
     Inr \<lparr>attemptedASCII_STL = True, attemptedBINARY_STL = True, displayed = []\<rparr>"
proof -
  have len: "length (js_split CHR 0x0A minimal_stl) = 7 * 1 + 3"
    by (simp add: minimal_stl_def)
  have a: "stl_ascii_try (readAsText minimal_stl) viewer0 = Inl TypeError"
    unfolding readAsText_def by (rule stl_ascii_try_small [OF len]) (simp add: PER_BATCH_def)
  have l: "length minimal_stl = 105" by (simp add: minimal_stl_def)
  have "window_cut minimal_stl 0"
    by (simp add: window_cut_def length_slice l)
  with stl_binary_try_cut [of minimal_stl 0 viewer0]
    visited_ge_batch [of "unat (le32 minimal_stl 80)"]
  obtain e where b: "stl_binary_try minimal_stl viewer0 = Inl e"
    by (auto simp: l PER_BATCH_def)
  from double_failure(1) [OF a b] show ?thesis
    by (simp add: viewer0_def)
qed

subsection \<open>C2: both STL parsers have failed\<close>

text \<open>
  Claim C2 says that when both STL parsers have failed the parse hands the host the error
  UnrecognizedOrCorruptStl. The code has no such error: each \<^verbatim>\<open>catch\<close> drops its
  exception, and the second parser to fail calls the first, which returns at once. On the
  five bytes \<open>solid\<close> the call returns with both flags set and nothing displayed.
\<close>

theorem parseSTL_both_failed_counterexample:
  "parseSTL ''solid'' viewer0 =
     Inr \<lparr>attemptedASCII_STL = True, attemptedBINARY_STL = True, displayed = []\<rparr>"
proof -
  have a: "stl_ascii_try (readAsText ''solid'') viewer0 = Inl IllegalParse"
    unfolding readAsText_def by (rule stl_ascii_try_not_integer) simp
  have b: "stl_binary_try ''solid'' viewer0 = Inl IllegalParse"
    by (simp add: stl_binary_try_short)
  have "parseSTL ''solid'' viewer0 = stl_ascii ''solid'' viewer0"
    by (simp add: parseSTL_def slice_def readAsText_def)
  with double_failure(1) [OF a b] show ?thesis
    by (simp add: viewer0_def)
qed

text \<open>
  Claim C2 as amended: when the \<^verbatim>\<open>try\<close> blocks of both STL parsers fail on a blob,
  \<^verbatim>\<open>packit.parseSTL\<close> returns with both flags set and nothing displayed, no exception
  reaches the host, and a further call of either parser with these flags returns at once
  and changes nothing.
\<close>

theorem stl_double_failure:
  assumes "stl_ascii_try (readAsText data) viewer = Inl ea"
    and "stl_binary_try data viewer = Inl eb"
    and "\<not> attemptedASCII_STL viewer" and "\<not> attemptedBINARY_STL viewer"
  shows "parseSTL data viewer =
           Inr (viewer\<lparr>attemptedASCII_STL := True, attemptedBINARY_STL := True\<rparr>) \<and>
         stl_ascii data (viewer\<lparr>attemptedASCII_STL := True, attemptedBINARY_STL := True\<rparr>) =
           Inr (viewer\<lparr>attemptedASCII_STL := True, attemptedBINARY_STL := True\<rparr>) \<and>
         stl_binary data (viewer\<lparr>attemptedASCII_STL := True, attemptedBINARY_STL := True\<rparr>) =
           Inr (viewer\<lparr>attemptedASCII_STL := True, attemptedBINARY_STL := True\<rparr>)"
  using double_failure [OF assms]
  by (simp add: parseSTL_def stl_ascii_noop stl_binary_noop)

text \<open>The empty blob is such a blob; \<^verbatim>\<open>packit.parseSTL\<close> tries the binary parser first.\<close>

theorem stl_double_failure_witness:
  "stl_ascii_try (readAsText []) viewer0 = Inl IllegalParse \<and>
   stl_binary_try [] viewer0 = Inl IllegalParse \<and>
   \<not> attemptedASCII_STL viewer0 \<and> \<not> attemptedBINARY_STL viewer0 \<and>
   parseSTL [] viewer0 =
     Inr \<lparr>attemptedASCII_STL = True, attemptedBINARY_STL = True, displayed = []\<rparr> \<and>
   stl_ascii [] \<lparr>attemptedASCII_STL = True, attemptedBINARY_STL = True, displayed = []\<rparr> =
     Inr \<lparr>attemptedASCII_STL = True, attemptedBINARY_STL = True, displayed = []\<rparr> \<and>
   stl_binary [] \<lparr>attemptedASCII_STL = True, attemptedBINARY_STL = True, displayed = []\<rparr> =
     Inr \<lparr>attemptedASCII_STL = True, attemptedBINARY_STL = True, displayed = []\<rparr>"
proof -
  have a: "stl_ascii_try (readAsText []) viewer0 = Inl IllegalParse"
    unfolding readAsText_def by (rule stl_ascii_try_not_integer) simp
  have b: "stl_binary_try [] viewer0 = Inl IllegalParse"
    by (simp add: stl_binary_try_short)
  have c: "\<not> attemptedASCII_STL viewer0" and d: "\<not> attemptedBINARY_STL viewer0"
    by (simp_all add: viewer0_def)
  from stl_double_failure [OF a b c d] a b c d show ?thesis
    by (simp add: viewer0_def)
qed

subsection \<open>C3: the declared count and the length of the buffer\<close>

text \<open>
  Claim C3 says that the binary parser checks \<open>84 + 50 * triCount \<le> bufferLength\<close> and
  falls back to the ASCII parser on every input that violates it. The code makes no such
  check. A buffer of 84 bytes that declares one triangle violates it, and the binary parser
  displays nine NaN for it and leaves its flag alone.
\<close>

theorem stl_binary_count_unchecked_counterexample:
  "\<not> 84 + 50 * unat (le32 count_only_stl 80) \<le> length count_only_stl \<and>
   stl_binary count_only_stl viewer0 =
     Inr \<lparr>attemptedASCII_STL = False, attemptedBINARY_STL = False,
          displayed = [\<lparr>arg_vertices =
            [OfNumber NaN, OfNumber NaN, OfNumber NaN, OfNumber NaN, OfNumber NaN,
             OfNumber NaN, OfNumber NaN, OfNumber NaN, OfNumber NaN],
            arg_name = None, arg_faceIndices = None, arg_colors = None, arg_uvs = None\<rparr>]\<rparr>"
proof -
  have "\<And>i. \<not> window_cut count_only_stl i"
    by (rule no_cut_outside) (simp add: count_only_len)
  from stl_binary_try_ok [of count_only_stl viewer0, OF _ this]
  have "stl_binary_try count_only_stl viewer0 =
      Inr (display viewer0
        [OfNumber NaN, OfNumber NaN, OfNumber NaN, OfNumber NaN, OfNumber NaN,
         OfNumber NaN, OfNumber NaN, OfNumber NaN, OfNumber NaN] None None None None)"
    by (simp add: count_only_len count_only_count binary_cell_def upt_0_9
        MAX_TYPED_ARRAY_LENGTH_def)
  then have "stl_binary count_only_stl viewer0 =
      Inr (display viewer0
        [OfNumber NaN, OfNumber NaN, OfNumber NaN, OfNumber NaN, OfNumber NaN,
         OfNumber NaN, OfNumber NaN, OfNumber NaN, OfNumber NaN] None None None None)"
    by (intro stl_binary_ok) (simp_all add: viewer0_def)
  then show ?thesis
    by (simp add: viewer0_def display_def count_only_len count_only_count)
qed

text \<open>
  Claim C3 as amended: the binary parser does not compare the declared count with the
  length of the buffer. It sets \<open>attemptedBINARY_STL\<close> and falls back to the ASCII parser,
  displaying nothing itself, when the buffer has fewer than 84 bytes, or when the end of
  the buffer cuts the 36 vertex bytes of a declared triangle to a number of bytes that is
  not a multiple of 4.
\<close>

theorem stl_binary_structural_failure:
  assumes "\<not> attemptedBINARY_STL viewer"
    and "length arr < 84 \<or> (\<exists>i. i < unat (le32 arr 80) \<and> window_cut arr i)"
  shows "stl_binary arr viewer = stl_ascii arr (viewer\<lparr>attemptedBINARY_STL := True\<rparr>)"
proof -
  have "\<exists>e. stl_binary_try arr viewer = Inl e"
  proof (cases "length arr < 84")
    case True
    then show ?thesis by (simp add: stl_binary_try_short)
  next
    case False
    with assms(2) obtain i where i: "i < unat (le32 arr 80)" "window_cut arr i" by auto
    from i(1) visited_ge [of "unat (le32 arr 80)"] have "i < visited (unat (le32 arr 80))"
      by simp
    with False i(2) show ?thesis by (intro stl_binary_try_cut) simp_all
  qed
  with assms(1) show ?thesis by (auto simp: stl_binary_fail)
qed

text \<open>A buffer of 98 bytes that declares one triangle: two of its vertex bytes are there.\<close>

theorem stl_binary_structural_failure_witness:
  "\<not> attemptedBINARY_STL viewer0 \<and>
   (length cut_stl < 84 \<or> (\<exists>i. i < unat (le32 cut_stl 80) \<and> window_cut cut_stl i)) \<and>
   stl_binary cut_stl viewer0 = stl_ascii cut_stl (viewer0\<lparr>attemptedBINARY_STL := True\<rparr>)"
proof -
  have a: "\<not> attemptedBINARY_STL viewer0" by (simp add: viewer0_def)
  have "le32 cut_stl 80 = 1" by (simp add: cut_stl_def le32_def nth_append)
  moreover have "window_cut cut_stl 0" by (simp add: window_cut_def length_slice cut_stl_def)
  ultimately have b:
    "length cut_stl < 84 \<or> (\<exists>i. i < unat (le32 cut_stl 80) \<and> window_cut cut_stl i)"
    by auto
  from a b stl_binary_structural_failure [OF a b] show ?thesis by simp
qed

subsection \<open>C4: the layout of a binary record\<close>

text \<open>
  Claim C4 says that the nine floats of the triangle \<open>i\<close> are the first 36 bytes of the
  record that begins at byte \<open>84 + 50 * i\<close>. The code skips the 12 bytes of the normal
  with which the record begins and reads the 36 bytes from \<open>96 + 50 * i\<close>. On a file of
  one record with the normal 0 0 1 and the vertices 2 3 4, 5 6 7, 8 9 10 the code displays
  2 to 10, and the first 36 bytes of the record are 0 0 1 and 2 to 7.
\<close>

theorem stl_binary_first36_counterexample:
  "stl_binary one_record_stl viewer0 =
     Inr \<lparr>attemptedASCII_STL = False, attemptedBINARY_STL = False,
          displayed = [\<lparr>arg_vertices =
            [Float32Bits 0x40000000, Float32Bits 0x40400000, Float32Bits 0x40800000,
             Float32Bits 0x40A00000, Float32Bits 0x40C00000, Float32Bits 0x40E00000,
             Float32Bits 0x41000000, Float32Bits 0x41100000, Float32Bits 0x41200000],
            arg_name = None, arg_faceIndices = None, arg_colors = None, arg_uvs = None\<rparr>]\<rparr> \<and>
   record_first36 one_record_stl 0 =
     [Float32Bits 0, Float32Bits 0, Float32Bits 0x3F800000,
      Float32Bits 0x40000000, Float32Bits 0x40400000, Float32Bits 0x40800000,
      Float32Bits 0x40A00000, Float32Bits 0x40C00000, Float32Bits 0x40E00000]"
proof -
  have "record_first36 one_record_stl 0 =
     [Float32Bits 0, Float32Bits 0, Float32Bits 0x3F800000,
      Float32Bits 0x40000000, Float32Bits 0x40400000, Float32Bits 0x40800000,
      Float32Bits 0x40A00000, Float32Bits 0x40C00000, Float32Bits 0x40E00000]"
    by (simp add: record_first36_def upt_0_9) (simp add: le32_def one_record_stl_def nth_append)
  moreover have "stl_binary one_record_stl viewer0 =
     Inr (display viewer0
        [Float32Bits 0x40000000, Float32Bits 0x40400000, Float32Bits 0x40800000,
         Float32Bits 0x40A00000, Float32Bits 0x40C00000, Float32Bits 0x40E00000,
         Float32Bits 0x41000000, Float32Bits 0x41100000, Float32Bits 0x41200000]
        None None None None)"
    by (rule stl_binary_ok [OF _ one_record_try]) (simp add: viewer0_def)
  ultimately show ?thesis
    by (simp add: viewer0_def display_def)
qed

text \<open>
  Claim C4 as amended: whenever the binary parser displays a mesh, the triangle count is
  the unsigned 32-bit little-endian integer at the bytes 80 to 83, the mesh has nine floats
  for each triangle, and float \<open>k\<close> of the triangle \<open>i\<close> is the float at byte
  \<open>96 + 50 * i + 4 * k\<close>: the nine floats are the 36 bytes that follow the 12-byte normal
  of the record beginning at \<open>84 + 50 * i\<close>, and neither the normal nor the two attribute
  bytes are read. A float that the buffer does not hold is NaN.
\<close>

theorem stl_binary_layout:
  assumes "\<not> attemptedBINARY_STL viewer" and "stl_binary_try arr viewer = Inr viewer'"
  shows "\<exists>mesh. stl_binary arr viewer = Inr (display viewer mesh None None None None) \<and>
           length mesh = 9 * unat (le32 arr 80) \<and>
           (\<forall>i k. i < unat (le32 arr 80) \<and> k < 9 \<longrightarrow>
              mesh ! (9 * i + k) =
                (if 96 + 50 * i + 4 * k + 4 \<le> length arr
                 then Float32Bits (le32 arr (96 + 50 * i + 4 * k)) else OfNumber NaN))"
proof -
  let ?T = "unat (le32 arr 80)"
  let ?mesh = "map (\<lambda>p. binary_cell arr (p div 9) (p mod 9)) [0..<9 * ?T]"
  have len: "84 \<le> length arr"
    using stl_binary_try_short [of arr viewer] assms(2) by (cases "84 \<le> length arr") auto
  have "\<not> window_cut arr i" if "i < visited ?T" for i
    using stl_binary_try_cut [OF len that, of viewer] assms(2) by auto
  moreover have "9 * ?T \<le> MAX_TYPED_ARRAY_LENGTH"
    using assms(2) by (simp add: stl_binary_try_long [OF len] split: if_splits)
  ultimately have "stl_binary_try arr viewer = Inr (display viewer ?mesh None None None None)"
    by (intro stl_binary_try_ok [OF len])
  with assms(1)
  have run: "stl_binary arr viewer = Inr (display viewer ?mesh None None None None)"
    by (simp add: stl_binary_ok)
  have "?mesh ! (9 * i + k) = binary_cell arr i k" if "i < ?T" and "k < 9" for i k
  proof -
    from that have "9 * i + k < 9 * ?T" by simp
    with that(2) show ?thesis by simp
  qed
  with run show ?thesis
    by (intro exI [of _ ?mesh]) (simp add: binary_cell_def)
qed

text \<open>The file of one record.\<close>

theorem stl_binary_layout_witness:
  "\<not> attemptedBINARY_STL viewer0 \<and>
   stl_binary_try one_record_stl viewer0 =
     Inr (display viewer0
        [Float32Bits 0x40000000, Float32Bits 0x40400000, Float32Bits 0x40800000,
         Float32Bits 0x40A00000, Float32Bits 0x40C00000, Float32Bits 0x40E00000,
         Float32Bits 0x41000000, Float32Bits 0x41100000, Float32Bits 0x41200000]
        None None None None) \<and>
   (0::nat) < unat (le32 one_record_stl 80) \<and> (0::nat) < 9 \<and>
   (\<exists>mesh. stl_binary one_record_stl viewer0 = Inr (display viewer0 mesh None None None None) \<and>
      length mesh = 9 * unat (le32 one_record_stl 80) \<and>
      mesh ! (9 * 0 + 0) = Float32Bits (le32 one_record_stl (96 + 50 * 0 + 4 * 0)))"
proof -
  have a: "\<not> attemptedBINARY_STL viewer0" by (simp add: viewer0_def)
  from stl_binary_layout [OF a one_record_try]
  obtain mesh where m: "stl_binary one_record_stl viewer0 =
      Inr (display viewer0 mesh None None None None)"
    "length mesh = 9 * unat (le32 one_record_stl 80)"
    "\<forall>i k. i < unat (le32 one_record_stl 80) \<and> k < 9 \<longrightarrow>
        mesh ! (9 * i + k) =
          (if 96 + 50 * i + 4 * k + 4 \<le> length one_record_stl
           then Float32Bits (le32 one_record_stl (96 + 50 * i + 4 * k)) else OfNumber NaN)"
    by blast
  have c: "(0::nat) < unat (le32 one_record_stl 80)" by (simp add: one_record_count)
  from m(3) [rule_format, of 0 0] c
  have "mesh ! (9 * 0 + 0) = Float32Bits (le32 one_record_stl (96 + 50 * 0 + 4 * 0))"
    by (simp add: one_record_len)
  moreover have "(0::nat) < 9" by simp
  ultimately show ?thesis using a one_record_try c m(1,2) by blast
qed

subsection \<open>C5: the tokens of the three vertex lines\<close>

text \<open>
  Claim C5 says that each of the nine values of a triangle is one of the last three tokens
  of its own vertex line, however many tokens come before them on each line. The code
  indexes the second line with the length of the third for its last value, and the third
  line with the length of the second for its first value. In the file of 500 triangles
  whose first facet has the vertex lines \<open>vertex 1 2 3\<close>, \<open> vertex 4 5 6\<close> (one more
  leading space) and \<open>vertex 7 8 9\<close>, the code displays 4 5 5 and 8 8 9 for the second
  and the third vertex.
\<close>

theorem stl_ascii_indented_vertex_line:
  "\<exists>rest. stl_ascii indented_stl viewer0 =
     Inr \<lparr>attemptedASCII_STL = False, attemptedBINARY_STL = False,
          displayed = [\<lparr>arg_vertices =
            [StringToNumber ''1'', StringToNumber ''2'', StringToNumber ''3'',
             StringToNumber ''4'', StringToNumber ''5'', StringToNumber ''5'',
             StringToNumber ''8'', StringToNumber ''8'', StringToNumber ''9''] @ rest,
            arg_name = None, arg_faceIndices = None, arg_colors = None, arg_uvs = None\<rparr>]\<rparr>"
proof -
  let ?sp = "js_split CHR 0x0A indented_stl"
  let ?mesh = "map (\<lambda>p. ascii_cells ?sp (p div 9) ! (p mod 9)) [0..<9 * 500]"
  have len: "length ?sp = 7 * 500 + 3"
    by (simp add: indented_split length_concat_replicate facet_lines_def
        indented_facet_lines_def)
  have "stl_ascii_try (readAsText indented_stl) viewer0 =
      Inr (display viewer0 ?mesh None None None None)"
    unfolding readAsText_def
    by (rule stl_ascii_try_ok [OF len]) (simp_all add: PER_BATCH_def MAX_TYPED_ARRAY_LENGTH_def)
  then have run: "stl_ascii indented_stl viewer0 = Inr (display viewer0 ?mesh None None None None)"
    by (intro stl_ascii_ok) (simp_all add: viewer0_def)
  have "take 9 ?mesh = map (\<lambda>p. ascii_cells ?sp (p div 9) ! (p mod 9)) [0..<9]"
    by (rule take_map_upt) simp
  also have "\<dots> = ascii_cells ?sp 0"
    by (simp add: upt_0_9 indented_cells)
  finally have "?mesh = ascii_cells ?sp 0 @ drop 9 ?mesh"
    by (metis append_take_drop_id)
  then obtain rest where "?mesh = ascii_cells ?sp 0 @ rest" ..
  with run have "stl_ascii indented_stl viewer0 =
      Inr (display viewer0 (ascii_cells ?sp 0 @ rest) None None None None)"
    by simp
  then show ?thesis
    unfolding indented_cells by (intro exI [of _ rest]) (simp add: viewer0_def display_def)
qed

subsection \<open>C6: the batches of 1250 triangles\<close>



subsection \<open>C7: a face of four corners\<close>

text \<open>
  Claim C7 says that every corner of a face beyond the third yields the triangle (first,
  previous, current), and that the face line \<open>f 1 2 3 4\<close> yields the indices
  0 1 2 0 2 3. The code does not: the loop of \<^verbatim>\<open>parseFace\<close> runs while
  \<open>i < arr.length - 1\<close> and so never reads the last token of the line (lemma
  \<open>parseFace_last_token_unread\<close>), where the loops of \<^verbatim>\<open>parseVertex\<close> and
  \<^verbatim>\<open>parseUV\<close> run to \<open>arr.length\<close>. For \<open>f 1 2 3 4\<close> it yields 0 1 2. A fourth
  corner that is read, as before a trailing space, is pushed before its two duplicates:
  0 1 2 3 0 2. From the fifth corner on the fixed offsets \<open>length - 4\<close> and
  \<open>length - 3\<close> no longer reach the first corner: of the six corners of
  \<open>f 1 2 3 4 5 6\<close> the fifth yields 4 3 2 and the sixth is not read.
\<close>

theorem parseOBJ_quad_last_corner_dropped:
  "parseOBJ ''f 1 2 3 4'' viewer0 =
     Inr \<lparr>attemptedASCII_STL = False, attemptedBINARY_STL = False,
          displayed = [\<lparr>arg_vertices = [], arg_name = None,
            arg_faceIndices = Some [0, 1, 2], arg_colors = None,
            arg_uvs = Some [OfNumber NaN, OfNumber NaN, OfNumber NaN]\<rparr>]\<rparr> \<and>
   parseOBJ ''f 1 2 3 4 '' viewer0 =
     Inr \<lparr>attemptedASCII_STL = False, attemptedBINARY_STL = False,
          displayed = [\<lparr>arg_vertices = [], arg_name = None,
            arg_faceIndices = Some [0, 1, 2, 3, 0, 2], arg_colors = None,
            arg_uvs = Some [OfNumber NaN, OfNumber NaN, OfNumber NaN, OfNumber NaN,
              OfNumber NaN, OfNumber NaN]\<rparr>]\<rparr> \<and>
   parseOBJ ''f 1 2 3 4 5 6'' viewer0 =
     Inr \<lparr>attemptedASCII_STL = False, attemptedBINARY_STL = False,
          displayed = [\<lparr>arg_vertices = [], arg_name = None,
            arg_faceIndices = Some [0, 1, 2, 3, 0, 2, 4, 3, 2], arg_colors = None,
            arg_uvs = Some [OfNumber NaN, OfNumber NaN, OfNumber NaN, OfNumber NaN,
              OfNumber NaN, OfNumber NaN, OfNumber NaN, OfNumber NaN, OfNumber NaN]\<rparr>]\<rparr>"
  by (intro conjI; code_simp)

subsection \<open>C8: negative indices\<close>

text \<open>
  Claim C8 says that a negative index of a face token counts from the end of what has been
  read, for vertices and independently for UV records, and that with \<open>V\<close> vertices
  read the token \<open>-1\<close> resolves to \<open>V - 1\<close>. For a token that the loop of
  \<^verbatim>\<open>parseFace\<close> reads, the code pushes \<open>n + vertices.length / 3 + 1 - 1\<close> (lemma
  \<open>parseFace_body_eq\<close>). But the loop never reads the last token of a face line, the
  defect of claim C7: after three vertices the face \<open>f -3 -2 -1\<close> yields the indices
  0 1, and its \<open>-1\<close> is not resolved at all. For UV records the code takes
  \<open>uvs.length / 3\<close> for their count, which it is only when each record has three
  components: after three records of two components the UV index \<open>-1\<close> is pushed
  as 1, not as 2.
\<close>

theorem parseOBJ_negative_index_last_token:
  "parseOBJ ''v 0 0 0\<newline>v 1 0 0\<newline>v 0 1 0\<newline>f -3 -2 -1'' viewer0 =
     Inr \<lparr>attemptedASCII_STL = False, attemptedBINARY_STL = False,
          displayed = [\<lparr>arg_vertices =
            [ParsedFloat ''0'', ParsedFloat ''0'', ParsedFloat ''0'',
             ParsedFloat ''1'', ParsedFloat ''0'', ParsedFloat ''0'',
             ParsedFloat ''0'', ParsedFloat ''1'', ParsedFloat ''0''],
            arg_name = None, arg_faceIndices = Some [0, 1], arg_colors = None,
            arg_uvs = Some [OfNumber NaN, OfNumber NaN]\<rparr>]\<rparr> \<and>
   parseOBJ ''vt 0 0\<newline>vt 1 0\<newline>vt 0 1\<newline>f 1/-1 2/-1 3/-1'' viewer0 =
     Inr \<lparr>attemptedASCII_STL = False, attemptedBINARY_STL = False,
          displayed = [\<lparr>arg_vertices = [], arg_name = None,
            arg_faceIndices = Some [0, 1], arg_colors = None,
            arg_uvs = Some [OfNumber (Num 1), OfNumber (Num 1)]\<rparr>]\<rparr>"
  by (intro conjI; code_simp)

subsection \<open>C9: what the OBJ parser displays\<close>

text \<open>
  Claim C9 says that the \<open>uvs\<close> of the mesh are the floats of the \<open>vt\<close> records. The code
  passes \<open>uvfaces\<close>, the texture indices of the face corners, where \<^verbatim>\<open>display\<close>
  documents \<open>uvs\<close> as uvw data; the floats of the \<open>vt\<close> records are only counted. For
  the one line \<open>vt 0.5 0.25 0\<close> the mesh has no uvs at all.
\<close>

theorem parseOBJ_uvs_argument:
  "parseOBJ ''vt 0.5 0.25 0'' viewer0 =
     Inr \<lparr>attemptedASCII_STL = False, attemptedBINARY_STL = False,
          displayed = [\<lparr>arg_vertices = [], arg_name = None,
            arg_faceIndices = Some [], arg_colors = None, arg_uvs = Some []\<rparr>]\<rparr>"
  by code_simp

subsection \<open>C10: the OBJ parser never fails\<close>

text \<open>
  Claim C10: for every input \<^verbatim>\<open>packit.parseOBJ\<close> returns without an exception and has
  called \<^verbatim>\<open>display\<close> exactly once; of a vertex or UV line it keeps the tokens that
  \<^verbatim>\<open>parseFloat\<close> reads as numbers and passes over the others; a face token whose
  vertex component is not a number changes nothing.
\<close>

theorem parseOBJ_never_fails:
  "(\<exists>mesh. parseOBJ data viewer = Inr (viewer\<lparr>displayed := displayed viewer @ [mesh]\<rparr>)) \<and>
   parseVertex line st =
     Inr (st\<lparr>vertices := vertices st @ map parseFloat (filter isNumeric (js_split CHR '' '' line))\<rparr>) \<and>
   parseUV line st =
     Inr (st\<lparr>uvs := uvs st @ map parseFloat (filter isNumeric (js_split CHR '' '' line))\<rparr>) \<and>
   (i < length arr \<and> face_of (arr ! i) = None \<longrightarrow> parseFace_body arr i st = Inr st)"
  by (simp add: parseOBJ_total parseVertex_eq parseUV_eq parseFace_body_eq)

text \<open>The face token \<open>x/1\<close>, and the vertex line \<open>v 1 a 2.5\<close>.\<close>

theorem parseOBJ_never_fails_witness:
  "(1::nat) < length [''f'', ''x/1'', ''2'', ''''] \<and>
   face_of ([''f'', ''x/1'', ''2'', ''''] ! 1) = None \<and>
   parseFace_body [''f'', ''x/1'', ''2'', ''''] 1 arrays0 = Inr arrays0 \<and>
   parseVertex ''v 1 a 2.5'' arrays0 =
     Inr (arrays0\<lparr>vertices := [ParsedFloat ''1'', ParsedFloat ''2.5'']\<rparr>)"
proof -
  have f: "face_of ([''f'', ''x/1'', ''2'', ''''] ! 1) = None"
    by (simp add: face_of_def parseInt_opt_def parseInt_def js_index_def isWhite_def
        radix_digit_def digit_val_def)
  have n: "filter isNumeric (js_split CHR '' '' ''v 1 a 2.5'') = [''1'', ''2.5'']"
    by (simp add: isNumeric_def isWhite_def radix_digit_def digit_val_def)
  from parseOBJ_never_fails
    [of "[]" viewer0 "''v 1 a 2.5''" arrays0 1 "[''f'', ''x/1'', ''2'', '''']"] f n
  show ?thesis
    by (simp add: arrays0_def parseFloat_def isNumeric_def isWhite_def radix_digit_def
        digit_val_def)
qed

end
